theory Spec2Isabelle
  imports Complex_Main
begin

section \<open>Numbers and time\<close>

text \<open>
  Go's \<^verbatim>\<open>float64\<close> is read as a real number: every finite \<^verbatim>\<open>float64\<close> is a
  rational, and the comparisons, sums, products and quotients of the source are the
  exact ones of the reals. The model therefore says nothing about rounding error,
  infinities or NaN, and a quotient by zero (infinite or NaN in Go) is outside of it.
  Three effects of the binary arithmetic have no counterpart here, and a lemma that
  holds in exact arithmetic only says so: a product that underflows to zero (\<open>price * 0.001\<close>
  for a positive price under about \<open>2.5e-321\<close>), a sum that overflows to an infinity
  (after which a quotient of two infinities is NaN), and a difference of rounded
  products that cancels to zero or under it (the sums of \<^verbatim>\<open>linearRegression\<close>).
  Where a statement bounds its inputs by \<open>10 ^ 300\<close>, the bound keeps the sums of the
  program finite.

  \<^verbatim>\<open>time.Time\<close> is an instant counted in nanoseconds from Go's zero time (the value
  for which \<^verbatim>\<open>IsZero\<close> holds); \<^verbatim>\<open>time.Duration\<close> is a count of nanoseconds
  held in 64 bits, and \<^verbatim>\<open>Time.Sub\<close> saturates at its two ends.
\<close>

type_synonym float64 = real
type_synonym Time = int
type_synonym Duration = int

definition IsZero :: "Time \<Rightarrow> bool" where
  "IsZero t = (t = 0)"

definition maxDuration :: Duration where
  "maxDuration = 9223372036854775807"

definition minDuration :: Duration where
  "minDuration = - 9223372036854775808"

definition Sub :: "Time \<Rightarrow> Time \<Rightarrow> Duration" where
  "Sub t u =
     (let d = t - u
      in if d > maxDuration then maxDuration
         else if d < minDuration then minDuration
         else d)"

definition Hours :: "Duration \<Rightarrow> float64" where
  "Hours d = real_of_int d / 3600000000000"

section \<open>pkg/types\<close>

record MarketMetrics =
  RealizedVolatility :: float64
  ATR :: float64
  RelativeStrength :: float64
  OrderImbalance :: float64
  TrendStrength :: float64
  AvgTrendStrength :: float64
  MarketEfficiencyRatio :: float64

definition NewMarketMetrics :: MarketMetrics where
  "NewMarketMetrics =
     \<lparr>RealizedVolatility = 0, ATR = 0, RelativeStrength = 0.5, OrderImbalance = 0.5,
      TrendStrength = 0, AvgTrendStrength = 0, MarketEfficiencyRatio = 0\<rparr>"

record TickData =
  Price :: float64
  Volume :: float64
  IsAsk :: bool
  Timestamp :: Time

record TradeData =
  Active :: bool
  Direction :: string
  EntryPrice :: float64
  EntryTime :: Time
  HighestPrice :: float64
  LowestPrice :: float64
  StopLoss :: float64
  CurrentPnL :: float64

definition NewTradeData :: TradeData where
  "NewTradeData =
     \<lparr>Active = False, Direction = [], EntryPrice = 0, EntryTime = 0, HighestPrice = 0,
      LowestPrice = 0, StopLoss = 0, CurrentPnL = 0\<rparr>"

text \<open>A signal; the fields are those of the Go struct, prefixed where a name is
  already a field of another record.\<close>

record Signal =
  Action :: string
  Side :: string
  SignalPrice :: float64
  SignalTime :: Time
  Reason :: string
  ProfitPercent :: float64
  UpdatedStopLoss :: float64
  Metrics :: "MarketMetrics option"

definition NewBuySignal :: "float64 \<Rightarrow> Time \<Rightarrow> MarketMetrics \<Rightarrow> Signal" where
  "NewBuySignal price timestamp metrics =
     \<lparr>Action = ''BUY'', Side = ''buy'', SignalPrice = price, SignalTime = timestamp,
      Reason = [], ProfitPercent = 0, UpdatedStopLoss = 0, Metrics = Some metrics\<rparr>"

definition NewSellSignal :: "float64 \<Rightarrow> Time \<Rightarrow> string \<Rightarrow> float64 \<Rightarrow> float64 \<Rightarrow> Signal" where
  "NewSellSignal price timestamp reason profitPercent stopLoss =
     \<lparr>Action = ''CLOSE'', Side = [], SignalPrice = price, SignalTime = timestamp,
      Reason = reason, ProfitPercent = profitPercent, UpdatedStopLoss = stopLoss,
      Metrics = None\<rparr>"

section \<open>The strategy: entry and exit decisions\<close>

text \<open>
  Of the \<^verbatim>\<open>Strategy\<close> struct only the active trade is state that the decisions read
  or write; the analyzer pointer is not used by them and the logger only prints.
\<close>

record Strategy =
  activeTrade :: TradeData

definition NewStrategy :: Strategy where
  "NewStrategy = \<lparr>activeTrade = NewTradeData\<rparr>"

definition checkBuyConditions :: "MarketMetrics \<Rightarrow> bool" where
  "checkBuyConditions metrics =
     (RealizedVolatility metrics \<le> 0.70 \<and>
      RealizedVolatility metrics \<ge> 0.35 \<and>
      RelativeStrength metrics \<le> 0.75 \<and>
      RelativeStrength metrics \<ge> 0.25 \<and>
      TrendStrength metrics \<ge> 5.0 \<and>
      AvgTrendStrength metrics \<ge> 3.0 \<and>
      TrendStrength metrics > AvgTrendStrength metrics \<and>
      OrderImbalance metrics \<ge> 0.65 \<and>
      MarketEfficiencyRatio metrics \<ge> 0.93)"

text \<open>
  The stop distance, stop-loss and take-profit levels that \<^verbatim>\<open>checkSellConditions\<close>
  computes from the current price before any check (its lines 147 to 158), as a
  triple \<open>(stopDistance, stopLoss, takeProfit)\<close>.
\<close>

definition stopLevels :: "float64 \<Rightarrow> MarketMetrics \<Rightarrow> float64 \<times> float64 \<times> float64" where
  "stopLevels currentPrice metrics =
     (let profitTargetMultiplier = 2.5;
          trailingStopDistance = 1.5;
          atr = ATR metrics;
          atr = (if atr < currentPrice * 0.001 then currentPrice * 0.001 else atr);
          stopDistance = trailingStopDistance * atr;
          profitDistance = stopDistance * profitTargetMultiplier;
          stopLoss = currentPrice - stopDistance;
          takeProfit = currentPrice + profitDistance
      in (stopDistance, stopLoss, takeProfit))"

text \<open>
  \<^verbatim>\<open>checkSellConditions\<close> returns \<open>(stopTriggered, reason, stopLoss, profit)\<close>.
  Each check is an \<^verbatim>\<open>if\<close> of its own that assigns \<open>stopTriggered\<close> and
  \<open>reason\<close>; the trailing adjustment assigns the local \<open>stopLoss\<close> after the
  stop-loss check has run.
\<close>

definition checkSellConditions ::
  "Time \<Rightarrow> float64 \<Rightarrow> float64 \<Rightarrow> float64 \<Rightarrow> Time \<Rightarrow> MarketMetrics
     \<Rightarrow> bool \<times> string \<times> float64 \<times> float64" where
  "checkSellConditions entryTime entryPrice highestPrice currentPrice timestamp metrics =
     (let trailingStopActivation = 1.0;
          trendStrengthThreshold = - 7.0;
          minProfit = 0.3;
          profit = currentPrice / entryPrice - 1;
          stopTriggered = False;
          reason = [];
          (stopDistance, stopLoss, takeProfit) = stopLevels currentPrice metrics;
          (stopTriggered, reason) =
            (if currentPrice \<le> stopLoss then (True, ''stop_loss'')
             else (stopTriggered, reason));
          (stopTriggered, reason) =
            (if currentPrice \<ge> takeProfit then (True, ''take_profit'')
             else (stopTriggered, reason));
          activationThreshold = trailingStopActivation / 100;
          stopLoss =
            (if profit \<ge> activationThreshold then
               (let trailDistance = trailingStopActivation * (ATR metrics / highestPrice);
                    trailLevel = highestPrice * (1 - trailDistance)
                in if trailLevel > stopLoss then trailLevel else stopLoss)
             else stopLoss);
          (stopTriggered, reason) =
            (if \<not> IsZero entryTime then
               (let tradeDuration = Hours (Sub timestamp entryTime)
                in if tradeDuration > 4 \<and> profit \<ge> minProfit / 100
                   then (True, ''time_exit'')
                   else (stopTriggered, reason))
             else (stopTriggered, reason));
          (stopTriggered, reason) =
            (if TrendStrength metrics < trendStrengthThreshold \<and> profit \<ge> minProfit / 100
             then (True, ''trend_reversal'')
             else (stopTriggered, reason))
      in (stopTriggered, reason, stopLoss, profit))"

definition checkEntryConditions ::
  "float64 \<Rightarrow> Time \<Rightarrow> MarketMetrics \<Rightarrow> Strategy \<Rightarrow> Signal option \<times> Strategy" where
  "checkEntryConditions price timestamp metrics s =
     (if checkBuyConditions metrics then
        (Some (NewBuySignal price timestamp metrics),
         s\<lparr>activeTrade := (activeTrade s)
              \<lparr>Active := True, Direction := ''buy'', EntryPrice := price,
               EntryTime := timestamp, HighestPrice := price, LowestPrice := price\<rparr>\<rparr>)
      else (None, s))"

definition checkExitConditions ::
  "float64 \<Rightarrow> Time \<Rightarrow> MarketMetrics \<Rightarrow> Strategy \<Rightarrow> Signal option \<times> Strategy" where
  "checkExitConditions price timestamp metrics s =
     (let t = activeTrade s;
          t = (if price > HighestPrice t then t\<lparr>HighestPrice := price\<rparr> else t);
          t = (if price < LowestPrice t then t\<lparr>LowestPrice := price\<rparr> else t);
          (stopTriggered, reason, stopLoss, profit) =
            checkSellConditions (EntryTime t) (EntryPrice t) (HighestPrice t)
              price timestamp metrics
      in if stopTriggered
         then (Some (NewSellSignal price timestamp reason (profit * 100) stopLoss),
               s\<lparr>activeTrade := t\<lparr>Active := False\<rparr>\<rparr>)
         else (None, s\<lparr>activeTrade := t\<rparr>))"

definition GenerateSignal ::
  "float64 \<Rightarrow> Time \<Rightarrow> MarketMetrics \<Rightarrow> Strategy \<Rightarrow> Signal option \<times> Strategy" where
  "GenerateSignal price timestamp metrics s =
     (if Active (activeTrade s) then checkExitConditions price timestamp metrics s
      else checkEntryConditions price timestamp metrics s)"

section \<open>Run-time panics\<close>

text \<open>
  A slice expression whose low bound exceeds its high bound stops a Go program with a
  run-time panic. The functions that can reach one return \<open>error + 'a\<close>, with
  \<open>Inl\<close> for the panic; \<open>andThen\<close> passes a panic on, as the unwinding stack does.
\<close>

datatype error = SliceBoundsOutOfRange

definition andThen :: "error + 'a \<Rightarrow> ('a \<Rightarrow> error + 'b) \<Rightarrow> error + 'b" where
  "andThen r f = (case r of Inl e \<Rightarrow> Inl e | Inr x \<Rightarrow> f x)"

section \<open>Formatting and rounding\<close>

text \<open>
  \<^verbatim>\<open>fmt.Sprintf("%f", price)\<close> prints a finite number with six digits after the
  point: an optional minus sign, the decimal digits of the integer part, a point and
  six digits. The printed digits are those of the value rounded to a multiple of
  \<open>10\<^sup>-\<^sup>6\<close>, a tie going to the even neighbour.
\<close>

definition roundHalfEven :: "real \<Rightarrow> int" where
  "roundHalfEven x =
     (let f = \<lfloor>x\<rfloor>; d = x - of_int f
      in if d < 1 / 2 then f
         else if d > 1 / 2 then f + 1
         else if even f then f else f + 1)"

definition digitChar :: "nat \<Rightarrow> char" where
  "digitChar d = char_of (48 + d)"

fun decimal :: "nat \<Rightarrow> string" where
  "decimal n = (if n < 10 then [digitChar n] else decimal (n div 10) @ [digitChar (n mod 10)])"

declare decimal.simps [simp del]

definition sixDigits :: "nat \<Rightarrow> string" where
  "sixDigits n = map (\<lambda>k. digitChar ((n div 10 ^ k) mod 10)) [5, 4, 3, 2, 1, 0]"

definition Sprintf_f :: "float64 \<Rightarrow> string" where
  "Sprintf_f x =
     (let q = nat (roundHalfEven (\<bar>x\<bar> * 1000000))
      in (if x < 0 then ''-'' else []) @ decimal (q div 1000000) @ ''.'' @
         sixDigits (q mod 1000000))"

text \<open>\<^verbatim>\<open>strings.Split(s, ".")\<close>: the pieces of \<open>s\<close> between the separators, at least
  one piece.\<close>

fun Split :: "string \<Rightarrow> char \<Rightarrow> string list" where
  "Split [] sep = [[]]"
| "Split (c # cs) sep =
     (if c = sep then [] # Split cs sep
      else (case Split cs sep of
              [] \<Rightarrow> [[c]]
            | p # ps \<Rightarrow> (c # p) # ps))"

text \<open>\<^verbatim>\<open>math.Round\<close> rounds to the nearest integer, a tie going away from zero.\<close>

definition math_Round :: "float64 \<Rightarrow> float64" where
  "math_Round x = (if x < 0 then - of_int \<lfloor>- x + 1 / 2\<rfloor> else of_int \<lfloor>x + 1 / 2\<rfloor>)"

section \<open>pkg/market: the bounded history\<close>

text \<open>
  The fields of \<^verbatim>\<open>MarketData\<close> that \<^verbatim>\<open>AddTick\<close>, \<^verbatim>\<open>Reset\<close> and the
  accessors read or write. The websocket fields, the logger and the mutex are left
  out, and so is the optional tick callback, which \<^verbatim>\<open>AddTick\<close> calls last, with
  the mutex still write-locked, and which does not write the store: \<open>AddTick\<close> below
  is \<^verbatim>\<open>AddTick\<close> on a store with no callback registered.
\<close>

record MarketData =
  priceHistory :: "float64 list"
  volumeHistory :: "float64 list"
  bidVolume :: "float64 list"
  askVolume :: "float64 list"
  timeStamps :: "Time list"
  highPrices :: "float64 list"
  lowPrices :: "float64 list"
  maxSize :: int
  roundNum :: int
  prevPrice :: float64

definition NewMarketData :: MarketData where
  "NewMarketData =
     \<lparr>priceHistory = [], volumeHistory = [], bidVolume = [], askVolume = [],
      timeStamps = [], highPrices = [], lowPrices = [], maxSize = 1000, roundNum = 0,
      prevPrice = 0\<rparr>"

text \<open>
  \<^verbatim>\<open>addToLimitedSlice\<close>: at or over the capacity the slice is re-sliced from its
  second element, which panics on an empty slice, and the value is appended.
\<close>

definition addToLimitedSlice :: "MarketData \<Rightarrow> 'a list \<Rightarrow> 'a \<Rightarrow> error + 'a list" where
  "addToLimitedSlice md s v =
     (if int (length s) \<ge> maxSize md then
        (case s of
           [] \<Rightarrow> Inl SliceBoundsOutOfRange
         | _ # rest \<Rightarrow> Inr (rest @ [v]))
      else Inr (s @ [v]))"

definition round_md :: "MarketData \<Rightarrow> float64 \<Rightarrow> float64" where
  "round_md md num =
     (let shift = 10 powi (roundNum md)
      in math_Round (num * shift) / shift)"

text \<open>
  The precision that \<^verbatim>\<open>AddTick\<close> stores when it finds none (its lines 88 to 95), as
  a function of the price it is given: six less the length of the text before the
  point, kept between 1 and 8; 2 for a text with no point.
\<close>

definition inferRoundNum :: "float64 \<Rightarrow> int" where
  "inferRoundNum price =
     (let priceStr = Sprintf_f price;
          parts = Split priceStr (CHR ''.'')
      in if length parts > 1 then
           (let roundNum = 6 - int (length (hd parts))
            in max 1 (min 8 roundNum))
         else 2)"

definition AddTick :: "TickData \<Rightarrow> MarketData \<Rightarrow> error + MarketData" where
  "AddTick tick md =
     (let price = Price tick;
          volume = Volume tick;
          isAsk = IsAsk tick;
          timestamp = Timestamp tick;
          md =
            (if roundNum md = 0 then
               (let md = md\<lparr>roundNum := inferRoundNum price\<rparr>
                in md\<lparr>prevPrice := round_md md price\<rparr>)
             else md);
          price = round_md md price
      in andThen (addToLimitedSlice md (priceHistory md) price) (\<lambda>ph.
         andThen (addToLimitedSlice md (volumeHistory md) volume) (\<lambda>vh.
         andThen (addToLimitedSlice md (timeStamps md) timestamp) (\<lambda>ts.
         andThen (addToLimitedSlice md (highPrices md)
                    (if highPrices md = [] \<or> price > last (highPrices md) then price
                     else last (highPrices md))) (\<lambda>hp.
         andThen (addToLimitedSlice md (lowPrices md)
                    (if lowPrices md = [] \<or> price < last (lowPrices md) then price
                     else last (lowPrices md))) (\<lambda>lp.
         (let md = md\<lparr>priceHistory := ph, volumeHistory := vh, timeStamps := ts,
                        highPrices := hp, lowPrices := lp\<rparr>
          in if isAsk
             then andThen (addToLimitedSlice md (askVolume md) volume)
                    (\<lambda>av. Inr (md\<lparr>askVolume := av\<rparr>))
             else andThen (addToLimitedSlice md (bidVolume md) volume)
                    (\<lambda>bv. Inr (md\<lparr>bidVolume := bv\<rparr>)))))))))"

definition GetPriceArray :: "MarketData \<Rightarrow> float64 list" where
  "GetPriceArray md = priceHistory md"

definition GetBidVolumeArray :: "MarketData \<Rightarrow> float64 list" where
  "GetBidVolumeArray md = bidVolume md"

definition GetAskVolumeArray :: "MarketData \<Rightarrow> float64 list" where
  "GetAskVolumeArray md = askVolume md"

definition GetHighPricesArray :: "MarketData \<Rightarrow> float64 list" where
  "GetHighPricesArray md = highPrices md"

definition GetLowPricesArray :: "MarketData \<Rightarrow> float64 list" where
  "GetLowPricesArray md = lowPrices md"

definition HasMinimumData :: "MarketData \<Rightarrow> int \<Rightarrow> bool" where
  "HasMinimumData md minTicks = (int (length (priceHistory md)) \<ge> minTicks)"

definition Reset :: "MarketData \<Rightarrow> MarketData" where
  "Reset md =
     md\<lparr>priceHistory := [], volumeHistory := [], bidVolume := [], askVolume := [],
        timeStamps := [], highPrices := [], lowPrices := [], prevPrice := 0,
        roundNum := 0\<rparr>"

text \<open>A sequence of \<^verbatim>\<open>AddTick\<close> calls on one store, in order.\<close>

fun AddTicks :: "TickData list \<Rightarrow> MarketData \<Rightarrow> error + MarketData" where
  "AddTicks [] md = Inr md"
| "AddTicks (tick # ticks) md = andThen (AddTick tick md) (AddTicks ticks)"

section \<open>pkg/analyzer: the metrics\<close>

text \<open>
  The library functions \<^verbatim>\<open>stats.Mean\<close> and \<^verbatim>\<open>stats.StandardDeviation\<close> of
  \<^verbatim>\<open>github.com/montanaflynn/stats\<close>: the arithmetic mean and the population
  standard deviation. The analyzer calls them on non-empty input only.
\<close>

definition Mean :: "float64 list \<Rightarrow> float64" where
  "Mean input = sum_list input / real (length input)"

definition StandardDeviation :: "float64 list \<Rightarrow> float64" where
  "StandardDeviation input =
     (let m = Mean input
      in sqrt (sum_list (map (\<lambda>n. (n - m) * (n - m)) input) / real (length input)))"

text \<open>
  The analyzer's own state. The store it points to is passed to each function
  beside it.
\<close>

record Analyzer =
  metrics :: MarketMetrics
  trendStrengthWindow :: "float64 list"
  warmupTicks :: int
  warmupComplete :: bool

definition NewAnalyzer :: Analyzer where
  "NewAnalyzer =
     \<lparr>metrics = NewMarketMetrics, trendStrengthWindow = [], warmupTicks = 300,
      warmupComplete = False\<rparr>"

definition SetWarmupTicks :: "int \<Rightarrow> Analyzer \<Rightarrow> Analyzer" where
  "SetWarmupTicks ticks a = a\<lparr>warmupTicks := ticks\<rparr>"

definition HasSufficientData :: "Analyzer \<Rightarrow> bool" where
  "HasSufficientData a = warmupComplete a"

definition GetMetrics :: "Analyzer \<Rightarrow> MarketMetrics" where
  "GetMetrics a =
     \<lparr>RealizedVolatility = RealizedVolatility (metrics a),
      ATR = ATR (metrics a),
      RelativeStrength = RelativeStrength (metrics a),
      OrderImbalance = OrderImbalance (metrics a),
      TrendStrength = TrendStrength (metrics a),
      AvgTrendStrength = AvgTrendStrength (metrics a),
      MarketEfficiencyRatio = MarketEfficiencyRatio (metrics a)\<rparr>"

text \<open>The returns \<open>prices[i] / prices[i-1] - 1\<close> for \<open>i\<close> from 1.\<close>

fun returnsOf :: "float64 list \<Rightarrow> float64 list" where
  "returnsOf (p # q # rest) = (q / p - 1) # returnsOf (q # rest)"
| "returnsOf _ = []"

text \<open>
  \<^verbatim>\<open>linearRegression\<close>: one loop accumulates the five sums
  \<open>(sumX, sumY, sumXY, sumXX, sumYY)\<close>.
\<close>

definition regressionSums ::
  "float64 list \<Rightarrow> float64 list \<Rightarrow> float64 \<times> float64 \<times> float64 \<times> float64 \<times> float64" where
  "regressionSums x y =
     fold (\<lambda>(xi, yi) (sumX, sumY, sumXY, sumXX, sumYY).
             (sumX + xi, sumY + yi, sumXY + xi * yi, sumXX + xi * xi, sumYY + yi * yi))
       (zip x y) (0, 0, 0, 0, 0)"

definition linearRegression ::
  "float64 list \<Rightarrow> float64 list \<Rightarrow> float64 \<times> float64 \<times> float64" where
  "linearRegression x y =
     (let n = real (length x)
      in if length x \<noteq> length y \<or> n < 2 then (0, 0, 0)
         else
           (let (sumX, sumY, sumXY, sumXX, sumYY) = regressionSums x y;
                slope = (n * sumXY - sumX * sumY) / (n * sumXX - sumX * sumX);
                intercept = (sumY - slope * sumX) / n;
                numerator = n * sumXY - sumX * sumY;
                denominator = sqrt ((n * sumXX - sumX * sumX) * (n * sumYY - sumY * sumY));
                r = (if denominator = 0 then 0 else numerator / denominator)
            in (slope, intercept, r)))"

definition calculateTrendStrength :: "float64 list \<Rightarrow> float64" where
  "calculateTrendStrength prices =
     (if length prices < 30 then 0.0
      else
        (let windowPrices = drop (length prices - 30) prices;
             x = map real [0 ..< length windowPrices];
             (slope, intercept, r) = linearRegression x windowPrices;
             meanPrice = Mean windowPrices;
             trendStrength = slope * r * r * (30 / meanPrice) * 100000
         in trendStrength))"

definition calculateMarketEfficiencyRatio :: "float64 list \<Rightarrow> float64" where
  "calculateMarketEfficiencyRatio prices =
     (if length prices < 30 then 0.5
      else
        (let netMovement = \<bar>prices ! (length prices - 1) - prices ! (length prices - 30)\<bar>;
             pathLength =
               sum_list (map (\<lambda>i. \<bar>prices ! i - prices ! (i - 1)\<bar>)
                 [length prices - 29 ..< length prices])
         in if pathLength = 0 then 0.5 else netMovement / pathLength))"

definition calculateRelativeStrength :: "float64 list \<Rightarrow> float64" where
  "calculateRelativeStrength returns =
     (if length returns < 2 then 0.5
      else
        (let window = min 500 (length returns);
             windowReturns = drop (length returns - window) returns;
             (gains, losses) =
               fold (\<lambda>ret (gains, losses).
                       if ret > 0 then (gains + ret, losses) else (gains, losses - ret))
                 windowReturns (0, 0)
         in if gains + losses = 0 then 0.5 else gains / (gains + losses)))"

definition calculateOrderImbalance :: "MarketData \<Rightarrow> float64" where
  "calculateOrderImbalance md =
     (let bidVolume = GetBidVolumeArray md;
          askVolume = GetAskVolumeArray md;
          totalBidVol = sum_list bidVolume;
          totalAskVol = sum_list askVolume
      in if totalBidVol + totalAskVol = 0 then 0.5
         else totalBidVol / (totalBidVol + totalAskVol))"

text \<open>
  \<^verbatim>\<open>calculateATR\<close>: with 14 highs, lows and prices at hand, the closes are
  \<open>prices[len-15 : len-1]\<close>, a slice expression that panics on exactly 14 prices.
\<close>

definition calculateATR :: "MarketData \<Rightarrow> Analyzer \<Rightarrow> float64 list \<Rightarrow> error + float64" where
  "calculateATR md a prices =
     (let highPrices = GetHighPricesArray md;
          lowPrices = GetLowPricesArray md
      in if length highPrices < 14 \<or> length lowPrices < 14 \<or> length prices < 14 then
           (if length prices > 0
            then Inr (RealizedVolatility (metrics a) * prices ! (length prices - 1) / 100)
            else Inr 0)
         else
           (let period = 14;
                highPrices = drop (length highPrices - period) highPrices;
                lowPrices = drop (length lowPrices - period) lowPrices
            in if length prices < period + 1 then Inl SliceBoundsOutOfRange
               else
                 (let closes = take period (drop (length prices - period - 1) prices);
                      trueRanges =
                        map (\<lambda>i. let tr1 = highPrices ! i - lowPrices ! i;
                                     tr2 = \<bar>highPrices ! i - closes ! i\<bar>;
                                     tr3 = \<bar>lowPrices ! i - closes ! i\<bar>
                                 in max tr1 (max tr2 tr3))
                          [0 ..< period]
                  in Inr (sum_list trueRanges / real period))))"

definition calculateMetrics :: "MarketData \<Rightarrow> Analyzer \<Rightarrow> error + Analyzer" where
  "calculateMetrics md a =
     (let prices = GetPriceArray md
      in if length prices < 2 then Inr a
         else
           (let returns = returnsOf prices;
                stdDev = StandardDeviation returns;
                realizedVolatility = stdDev * sqrt (252 * 1440) * 100
            in andThen (calculateATR md a prices) (\<lambda>atr.
                 (let relativeStrength = calculateRelativeStrength returns;
                      orderImbalance = calculateOrderImbalance md;
                      trendStrength = calculateTrendStrength prices;
                      w = trendStrengthWindow a;
                      w = (if length w \<ge> 20 then tl w else w);
                      w = w @ [trendStrength];
                      avgTrendStrength =
                        (if length w \<ge> 7 then sum_list w / real (length w) else 0.0);
                      mer = calculateMarketEfficiencyRatio prices
                  in Inr (a\<lparr>trendStrengthWindow := w,
                            metrics := (metrics a)
                              \<lparr>RealizedVolatility := realizedVolatility,
                               ATR := atr,
                               RelativeStrength := relativeStrength,
                               OrderImbalance := orderImbalance,
                               TrendStrength := trendStrength,
                               AvgTrendStrength := avgTrendStrength,
                               MarketEfficiencyRatio := mer\<rparr>\<rparr>)))))"

text \<open>
  \<^verbatim>\<open>ProcessTick\<close> returns the snapshot (\<open>None\<close> for Go's \<^verbatim>\<open>nil\<close>) and the
  analyzer as it leaves it. It reads the store, not the tick it is given.
\<close>

definition ProcessTick ::
  "TickData \<Rightarrow> MarketData \<Rightarrow> Analyzer \<Rightarrow> error + (MarketMetrics option \<times> Analyzer)" where
  "ProcessTick tick md a =
     (if \<not> HasMinimumData md 20 then Inr (None, a)
      else
        andThen (calculateMetrics md a) (\<lambda>a.
          (let a = (if \<not> warmupComplete a \<and> HasMinimumData md (warmupTicks a)
                    then a\<lparr>warmupComplete := True\<rparr> else a)
           in Inr (Some (GetMetrics a), a))))"

section \<open>Feeding a tick sequence\<close>

text \<open>
  \<open>processTicks\<close> feeds a tick sequence to a store with no callback registered and to
  an analyzer on that store, by the two exported calls, one tick at a time:
  \<^verbatim>\<open>AddTick\<close>, and once it has returned \<^verbatim>\<open>ProcessTick\<close> with the same tick. It
  returns the snapshot of every tick with the store and the analyzer as they are
  left.

  The manager (\<^verbatim>\<open>setupCallbacks\<close>, in the source file of the store) wires the two
  calls differently: it registers \<^verbatim>\<open>ProcessTick\<close> as the callback of the store, so
  that it runs inside \<^verbatim>\<open>AddTick\<close> while the mutex of the store is write-locked.
  \<^verbatim>\<open>ProcessTick\<close> begins with \<^verbatim>\<open>HasMinimumData\<close>, which asks for the read lock of
  that mutex, and a Go \<^verbatim>\<open>RWMutex\<close> is not reentrant: on that path the first tick
  blocks and no snapshot is returned. The mutex is not part of this model, and
  \<open>processTicks\<close> is not that path.
\<close>

fun processTicks ::
  "TickData list \<Rightarrow> MarketData \<Rightarrow> Analyzer
     \<Rightarrow> error + (MarketMetrics option list \<times> MarketData \<times> Analyzer)" where
  "processTicks [] md a = Inr ([], md, a)"
| "processTicks (tick # ticks) md a =
     andThen (AddTick tick md) (\<lambda>md.
     andThen (ProcessTick tick md a) (\<lambda>(m, a).
     andThen (processTicks ticks md a) (\<lambda>(ms, md, a). Inr (m # ms, md, a))))"

section \<open>The exit conditions, and a position to try them on\<close>

text \<open>
  The four conditions that \<^verbatim>\<open>checkSellConditions\<close> tests, each under a name: the
  stop-loss and take-profit tests against the levels of \<open>stopLevels\<close>, the time
  exit and the trend reversal.
\<close>

definition stop_loss_hit :: "float64 \<Rightarrow> MarketMetrics \<Rightarrow> bool" where
  "stop_loss_hit currentPrice m =
     (currentPrice \<le> fst (snd (stopLevels currentPrice m)))"

definition take_profit_hit :: "float64 \<Rightarrow> MarketMetrics \<Rightarrow> bool" where
  "take_profit_hit currentPrice m =
     (currentPrice \<ge> snd (snd (stopLevels currentPrice m)))"

definition time_exit_due :: "Time \<Rightarrow> float64 \<Rightarrow> float64 \<Rightarrow> Time \<Rightarrow> bool" where
  "time_exit_due entryTime entryPrice currentPrice timestamp =
     (\<not> IsZero entryTime \<and>
      Hours (Sub timestamp entryTime) > 4 \<and> currentPrice / entryPrice - 1 \<ge> 0.3 / 100)"

definition trend_reversal_due :: "float64 \<Rightarrow> float64 \<Rightarrow> MarketMetrics \<Rightarrow> bool" where
  "trend_reversal_due entryPrice currentPrice m =
     (TrendStrength m < - 7.0 \<and> currentPrice / entryPrice - 1 \<ge> 0.3 / 100)"

text \<open>
  An open long position entered at 100 with an average true range of 1, the scenario
  of the specification, and one hour in nanoseconds.
\<close>

definition scenarioTrade :: TradeData where
  "scenarioTrade =
     \<lparr>Active = True, Direction = ''buy'', EntryPrice = 100, EntryTime = 1,
      HighestPrice = 100, LowestPrice = 100, StopLoss = 0, CurrentPnL = 0\<rparr>"

definition scenarioStrategy :: Strategy where
  "scenarioStrategy = \<lparr>activeTrade = scenarioTrade\<rparr>"

definition scenarioMetrics :: MarketMetrics where
  "scenarioMetrics = NewMarketMetrics\<lparr>ATR := 1\<rparr>"

definition hour :: Duration where
  "hour = 3600000000000"

section \<open>The store's invariant\<close>

text \<open>
  First in, first out, as the claim on the history states it: an insertion into a
  sequence at (or over) the capacity drops the single oldest element, keeps the order
  of the others and appends the new element; under the capacity it only appends.
\<close>

definition fifo_insert :: "int \<Rightarrow> 'a list \<Rightarrow> 'a \<Rightarrow> 'a list" where
  "fifo_insert capacity s v = (if int (length s) \<ge> capacity then tl s @ [v] else s @ [v])"


section \<open>Calls of the analyzer\<close>

text \<open>
  A sequence of \<^verbatim>\<open>ProcessTick\<close> calls on one analyzer, each with the tick it is
  given and the store as it is at that call; the store may have grown, or have been
  reset, between two calls.
\<close>

fun ProcessTickCalls :: "(TickData \<times> MarketData) list \<Rightarrow> Analyzer \<Rightarrow> error + Analyzer" where
  "ProcessTickCalls [] a = Inr a"
| "ProcessTickCalls ((tick, md) # calls) a =
     andThen (ProcessTick tick md a) (\<lambda>(m, a). ProcessTickCalls calls a)"

section \<open>Replaying a tick sequence\<close>

text \<open>
  The running highs and lows are as long as the price history, as they are on every
  store that \<^verbatim>\<open>AddTick\<close> has filled from empty.
\<close>

definition history_aligned :: "MarketData \<Rightarrow> bool" where
  "history_aligned md =
     (length (highPrices md) = length (priceHistory md) \<and>
      length (lowPrices md) = length (priceHistory md))"

text \<open>A snapshot with its average trend strength blanked, to compare the other six
  metrics of two snapshots.\<close>

definition withoutAvgTrend :: "MarketMetrics \<Rightarrow> MarketMetrics" where
  "withoutAvgTrend m = m\<lparr>AvgTrendStrength := 0\<rparr>"

text \<open>
  Two windows of at most 20 trend strengths each that agree in their last \<open>j\<close>
  entries, and so in all of them once \<open>j\<close> has reached 20: the windows of two
  analyzers that have computed the same \<open>j\<close> trend strengths last.
\<close>

definition windows_agree :: "nat \<Rightarrow> float64 list \<Rightarrow> float64 list \<Rightarrow> bool" where
  "windows_agree j wa wb =
     (length wa \<le> 20 \<and> length wb \<le> 20 \<and> min j 20 \<le> length wa \<and> min j 20 \<le> length wb \<and>
      drop (length wa - min j 20) wa = drop (length wb - min j 20) wb)"

text \<open>The ticks with the prices 1, 2, 3, ..., one bid of volume 1 each, and the first
  thirty of them.\<close>

definition risingTick :: "nat \<Rightarrow> TickData" where
  "risingTick i = \<lparr>Price = real i, Volume = 1, IsAsk = False, Timestamp = int i\<rparr>"

definition risingTicks :: "TickData list" where
  "risingTicks = map risingTick [1 ..< 31]"

section \<open>What the exit decision returns\<close>

lemma checkSellConditions_triggered:
  "fst (checkSellConditions et ep hp p now m) =
     (stop_loss_hit p m \<or> take_profit_hit p m \<or> time_exit_due et ep p now \<or>
      trend_reversal_due ep p m)"
  unfolding checkSellConditions_def stop_loss_hit_def take_profit_hit_def time_exit_due_def
    trend_reversal_due_def
  by (auto simp only: Let_def split_def fst_conv snd_conv split: if_splits)

lemma checkSellConditions_reason:
  "fst (snd (checkSellConditions et ep hp p now m)) =
     (if trend_reversal_due ep p m then ''trend_reversal''
      else if time_exit_due et ep p now then ''time_exit''
      else if take_profit_hit p m then ''take_profit''
      else if stop_loss_hit p m then ''stop_loss''
      else [])"
  unfolding checkSellConditions_def stop_loss_hit_def take_profit_hit_def time_exit_due_def
    trend_reversal_due_def
  by (auto simp only: Let_def split_def fst_conv snd_conv split: if_splits)

lemma checkSellConditions_stopLoss:
  "fst (snd (snd (checkSellConditions et ep hp p now m))) =
     (if p / ep - 1 \<ge> 1.0 / 100 \<and> hp * (1 - 1.0 * (ATR m / hp)) > fst (snd (stopLevels p m))
      then hp * (1 - 1.0 * (ATR m / hp))
      else fst (snd (stopLevels p m)))"
  unfolding checkSellConditions_def
  by (auto simp only: Let_def split_def fst_conv snd_conv split: if_splits)

lemma checkExitConditions_signal:
  "fst (checkExitConditions p now m s) =
     (let t = activeTrade s;
          hp = (if p > HighestPrice t then p else HighestPrice t);
          r = checkSellConditions (EntryTime t) (EntryPrice t) hp p now m
      in if fst r
         then Some (NewSellSignal p now (fst (snd r)) (snd (snd (snd r)) * 100)
                      (fst (snd (snd r))))
         else None)"
  by (simp add: checkExitConditions_def Let_def split_def)

lemma checkExitConditions_state:
  "snd (checkExitConditions p now m s) =
     (let t = activeTrade s;
          hp = (if p > HighestPrice t then p else HighestPrice t);
          lp = (if p < LowestPrice t then p else LowestPrice t);
          r = checkSellConditions (EntryTime t) (EntryPrice t) hp p now m
      in s\<lparr>activeTrade :=
             t\<lparr>HighestPrice := hp, LowestPrice := lp, Active := Active t \<and> \<not> fst r\<rparr>\<rparr>)"
  if "Active (activeTrade s)"
  using that by (simp add: checkExitConditions_def Let_def split_def)

lemma exit_reason:
  "Active (activeTrade s) \<Longrightarrow>
   map_option Reason (fst (GenerateSignal price now m s)) =
     (if trend_reversal_due (EntryPrice (activeTrade s)) price m then Some ''trend_reversal''
      else if time_exit_due (EntryTime (activeTrade s)) (EntryPrice (activeTrade s)) price now
        then Some ''time_exit''
      else if take_profit_hit price m then Some ''take_profit''
      else if stop_loss_hit price m then Some ''stop_loss''
      else None)"
  by (simp add: GenerateSignal_def checkExitConditions_signal checkSellConditions_triggered
      checkSellConditions_reason NewSellSignal_def Let_def)

lemma scenario_time: "Hours (Sub (1 + k * hour) 1) = real_of_int k"
  if "0 \<le> k" "k \<le> 1000"
  using that by (simp add: Hours_def Sub_def hour_def maxDuration_def minDuration_def)

lemma scenario_stopLevels:
  "stopLevels 100 scenarioMetrics = (1.5, 98.5, 103.75)"
  "stopLevels 101 scenarioMetrics = (1.5, 99.5, 104.75)"
  "stopLevels 102 scenarioMetrics = (1.5, 100.5, 105.75)"
  "stopLevels 100.5 scenarioMetrics = (1.5, 99, 104.25)"
  by (simp_all add: stopLevels_def scenarioMetrics_def NewMarketMetrics_def Let_def)

subsection \<open>C1: which reason a CLOSE signal carries\<close>

text \<open>
  C1, as stated, fails. Five hours into the scenario position, at price 101 and with a
  trend strength of -8, the time exit and the trend reversal both hold; the time exit
  comes first in the order stop_loss, take_profit, time_exit, trend_reversal, and the
  CLOSE signal carries the reason of the trend reversal.
\<close>

theorem C1_first_true_wins_counterexample:
  "time_exit_due (EntryTime scenarioTrade) (EntryPrice scenarioTrade) 101 (1 + 5 * hour) \<and>
   trend_reversal_due (EntryPrice scenarioTrade) 101 (scenarioMetrics\<lparr>TrendStrength := - 8\<rparr>) \<and>
   map_option Reason
     (fst (GenerateSignal 101 (1 + 5 * hour) (scenarioMetrics\<lparr>TrendStrength := - 8\<rparr>)
        scenarioStrategy)) = Some ''trend_reversal'' \<and>
   ''trend_reversal'' \<noteq> ''time_exit''"
proof -
  have t: "time_exit_due (EntryTime scenarioTrade) (EntryPrice scenarioTrade) 101 (1 + 5 * hour)"
    using scenario_time [of 5]
    by (simp add: time_exit_due_def scenarioTrade_def IsZero_def)
  have r: "trend_reversal_due (EntryPrice scenarioTrade) 101
             (scenarioMetrics\<lparr>TrendStrength := - 8\<rparr>)"
    by (simp add: trend_reversal_due_def scenarioTrade_def)
  have a: "Active (activeTrade scenarioStrategy)"
    by (simp add: scenarioStrategy_def scenarioTrade_def)
  have e: "EntryPrice (activeTrade scenarioStrategy) = EntryPrice scenarioTrade"
    by (simp add: scenarioStrategy_def)
  show ?thesis
    using t r by (simp add: exit_reason [OF a] e)
qed

text \<open>
  C1, amended: on an open position the signal carries the reason of the last
  condition that holds in the order stop_loss, take_profit, time_exit, trend_reversal,
  each later check overwriting the reason of an earlier one; there is no signal when
  none holds, and a signal that is emitted is a CLOSE.
\<close>

theorem C1_last_true_wins:
  "Active (activeTrade s) \<Longrightarrow>
   map_option Reason (fst (GenerateSignal price now m s)) =
     (if trend_reversal_due (EntryPrice (activeTrade s)) price m then Some ''trend_reversal''
      else if time_exit_due (EntryTime (activeTrade s)) (EntryPrice (activeTrade s)) price now
        then Some ''time_exit''
      else if take_profit_hit price m then Some ''take_profit''
      else if stop_loss_hit price m then Some ''stop_loss''
      else None) \<and>
   map_option Action (fst (GenerateSignal price now m s)) =
     (if trend_reversal_due (EntryPrice (activeTrade s)) price m \<or>
         time_exit_due (EntryTime (activeTrade s)) (EntryPrice (activeTrade s)) price now \<or>
         take_profit_hit price m \<or> stop_loss_hit price m
      then Some ''CLOSE'' else None)"
  by (simp add: exit_reason)
    (auto simp add: GenerateSignal_def checkExitConditions_signal
      checkSellConditions_triggered NewSellSignal_def Let_def)

theorem C1_last_true_wins_witness:
  "Active (activeTrade scenarioStrategy) \<and>
   map_option Reason (fst (GenerateSignal 101 (1 + 5 * hour) scenarioMetrics scenarioStrategy))
     = Some ''time_exit'' \<and>
   map_option Action (fst (GenerateSignal 101 (1 + 5 * hour) scenarioMetrics scenarioStrategy))
     = Some ''CLOSE''"
proof -
  have a: "Active (activeTrade scenarioStrategy)"
    by (simp add: scenarioStrategy_def scenarioTrade_def)
  have t: "time_exit_due (EntryTime (activeTrade scenarioStrategy))
             (EntryPrice (activeTrade scenarioStrategy)) 101 (1 + 5 * hour)"
    using scenario_time [of 5]
    by (simp add: time_exit_due_def scenarioStrategy_def scenarioTrade_def IsZero_def)
  have r: "\<not> trend_reversal_due (EntryPrice (activeTrade scenarioStrategy)) 101 scenarioMetrics"
    by (simp add: trend_reversal_due_def scenarioMetrics_def NewMarketMetrics_def)
  show ?thesis
    using a t r C1_last_true_wins [OF a, where price = 101 and m = scenarioMetrics and now = "1 + 5 * hour"] by simp
qed

subsection \<open>C2: the trailing stop\<close>

text \<open>
  C2 against the code, on the scenario position. A tick at 102 (profit 2 percent) raises
  the stop-loss that \<^verbatim>\<open>checkSellConditions\<close> returns from 100.5 to the trail
  level 101; no signal is emitted, so the level is dropped, and the stored trade still
  has its stop-loss of 0. The next tick at 100.5 (profit 0.5 percent) starts again from
  100.5 - 1.5 = 99, a lower level than 101, and although the price is under 101 no
  CLOSE is emitted.
\<close>

theorem C2_raised_stop_is_not_kept:
  "fst (snd (snd (checkSellConditions 1 100 102 102 (1 + hour) scenarioMetrics))) = 101 \<and>
   GenerateSignal 102 (1 + hour) scenarioMetrics scenarioStrategy =
     (None, \<lparr>activeTrade = scenarioTrade\<lparr>HighestPrice := 102\<rparr>\<rparr>) \<and>
   StopLoss (scenarioTrade\<lparr>HighestPrice := 102\<rparr>) = 0 \<and>
   fst (snd (snd (checkSellConditions 1 100 102 100.5 (1 + 2 * hour) scenarioMetrics))) = 99 \<and>
   GenerateSignal 100.5 (1 + 2 * hour) scenarioMetrics
       \<lparr>activeTrade = scenarioTrade\<lparr>HighestPrice := 102\<rparr>\<rparr> =
     (None, \<lparr>activeTrade = scenarioTrade\<lparr>HighestPrice := 102\<rparr>\<rparr>)"
proof -
  have m: "ATR scenarioMetrics = 1" "TrendStrength scenarioMetrics = 0"
    by (simp_all add: scenarioMetrics_def NewMarketMetrics_def)
  have s1: "fst (snd (snd (checkSellConditions 1 100 102 102 (1 + hour) scenarioMetrics))) = 101"
    by (simp add: checkSellConditions_stopLoss scenario_stopLevels m)
  have l: "stopLevels (201 / 2) scenarioMetrics = (3 / 2, 99, 417 / 4)"
    using scenario_stopLevels(4) by simp
  have s2: "fst (snd (snd (checkSellConditions 1 100 102 100.5 (1 + 2 * hour) scenarioMetrics))) = 99"
    by (simp add: checkSellConditions_stopLoss l m)
  have q1: "\<not> fst (checkSellConditions 1 100 102 102 (1 + hour) scenarioMetrics)"
    using scenario_time [of 1]
    by (simp add: checkSellConditions_triggered stop_loss_hit_def take_profit_hit_def
        time_exit_due_def trend_reversal_due_def scenario_stopLevels m)
  have q2: "\<not> fst (checkSellConditions 1 100 102 100.5 (1 + 2 * hour) scenarioMetrics)"
    using scenario_time [of 2]
    by (simp add: checkSellConditions_triggered stop_loss_hit_def take_profit_hit_def
        time_exit_due_def trend_reversal_due_def l m)
  have g1: "GenerateSignal 102 (1 + hour) scenarioMetrics scenarioStrategy =
              (None, \<lparr>activeTrade = scenarioTrade\<lparr>HighestPrice := 102\<rparr>\<rparr>)"
    using q1
    by (simp add: GenerateSignal_def checkExitConditions_def scenarioStrategy_def
        scenarioTrade_def Let_def split_def)
  have g2: "GenerateSignal 100.5 (1 + 2 * hour) scenarioMetrics
              \<lparr>activeTrade = scenarioTrade\<lparr>HighestPrice := 102\<rparr>\<rparr> =
            (None, \<lparr>activeTrade = scenarioTrade\<lparr>HighestPrice := 102\<rparr>\<rparr>)"
    using q2
    by (simp add: GenerateSignal_def checkExitConditions_def scenarioTrade_def Let_def
        split_def)
  show ?thesis
    using s1 s2 g1 g2 by (simp add: scenarioTrade_def)
qed

subsection \<open>C3: the scenario of the specification\<close>

text \<open>
  C3 against the code. At price 100 the levels are as the claim gives them: stop
  distance 1.5, stop-loss 98.5, take-profit 103.75. The tick at 102 raises the returned
  stop-loss to \<open>102 * (1 - 1 * (1 / 102)) = 101\<close>. The tick at that level, 101, is
  tested against a stop-loss computed anew from 101, which is 99.5: no CLOSE signal is
  emitted and the position stays open.
\<close>

theorem C3_no_close_at_the_raised_stop:
  "stopLevels 100 scenarioMetrics = (1.5, 98.5, 103.75) \<and>
   fst (snd (snd (checkSellConditions 1 100 102 102 (1 + hour) scenarioMetrics))) =
     102 * (1 - 1 * (ATR scenarioMetrics / 102)) \<and>
   102 * (1 - 1 * (ATR scenarioMetrics / 102)) = 101 \<and>
   fst (GenerateSignal 101 (1 + 2 * hour) scenarioMetrics
       \<lparr>activeTrade = scenarioTrade\<lparr>HighestPrice := 102\<rparr>\<rparr>) = None \<and>
   Active (activeTrade (snd (GenerateSignal 101 (1 + 2 * hour) scenarioMetrics
       \<lparr>activeTrade = scenarioTrade\<lparr>HighestPrice := 102\<rparr>\<rparr>)))"
proof -
  have m: "ATR scenarioMetrics = 1" "TrendStrength scenarioMetrics = 0"
    by (simp_all add: scenarioMetrics_def NewMarketMetrics_def)
  have s1: "fst (snd (snd (checkSellConditions 1 100 102 102 (1 + hour) scenarioMetrics))) = 101"
    by (simp add: checkSellConditions_stopLoss scenario_stopLevels m)
  have q: "\<not> fst (checkSellConditions 1 100 102 101 (1 + 2 * hour) scenarioMetrics)"
    using scenario_time [of 2]
    by (simp add: checkSellConditions_triggered stop_loss_hit_def take_profit_hit_def
        time_exit_due_def trend_reversal_due_def scenario_stopLevels m)
  have g: "GenerateSignal 101 (1 + 2 * hour) scenarioMetrics
              \<lparr>activeTrade = scenarioTrade\<lparr>HighestPrice := 102\<rparr>\<rparr> =
            (None, \<lparr>activeTrade = scenarioTrade\<lparr>HighestPrice := 102\<rparr>\<rparr>)"
    using q
    by (simp add: GenerateSignal_def checkExitConditions_def scenarioTrade_def Let_def
        split_def)
  show ?thesis
    using s1 by (simp add: g scenario_stopLevels m) (simp add: scenarioTrade_def)
qed


section \<open>The printed price\<close>

lemma digitChar_not_point: "d < 10 \<Longrightarrow> digitChar d \<noteq> CHR ''.''"
proof
  assume d: "d < 10" and e: "digitChar d = CHR ''.''"
  have "of_char (digitChar d) = ((48 + d) mod 256 :: nat)"
    by (simp add: digitChar_def)
  moreover have "of_char (CHR ''.'') = (46 :: nat)"
    by simp
  ultimately have "(48 + d) mod 256 = 46"
    using e by simp
  with d show False
    by simp
qed

lemma decimal_no_point: "CHR ''.'' \<notin> set (decimal n)"
proof (induction n rule: decimal.induct)
  case (1 n)
  show ?case
  proof (cases "n < 10")
    case True
    then show ?thesis
      using digitChar_not_point [of n] by (subst decimal.simps) auto
  next
    case False
    moreover have "n mod 10 < 10"
      by simp
    ultimately show ?thesis
      using 1 digitChar_not_point [of "n mod 10"] by (subst decimal.simps) auto
  qed
qed

lemma sixDigits_no_point: "CHR ''.'' \<notin> set (sixDigits n)"
proof -
  have "CHR ''.'' \<noteq> digitChar (k mod 10)" for k
    using digitChar_not_point [of "k mod 10"] by simp
  then show ?thesis
    unfolding sixDigits_def by auto
qed

lemma Split_no_sep: "sep \<notin> set s \<Longrightarrow> Split s sep = [s]"
  by (induction s) auto

lemma Split_at_sep: "sep \<notin> set a \<Longrightarrow> Split (a @ sep # b) sep = a # Split b sep"
  by (induction a) auto

lemma Split_Sprintf_f:
  "Split (Sprintf_f x) (CHR ''.'') =
     [(if x < 0 then ''-'' else []) @
        decimal (nat (roundHalfEven (\<bar>x\<bar> * 1000000)) div 1000000),
      sixDigits (nat (roundHalfEven (\<bar>x\<bar> * 1000000)) mod 1000000)]"
proof -
  let ?a = "(if x < 0 then ''-'' else []) @
        decimal (nat (roundHalfEven (\<bar>x\<bar> * 1000000)) div 1000000)"
  let ?b = "sixDigits (nat (roundHalfEven (\<bar>x\<bar> * 1000000)) mod 1000000)"
  have a: "CHR ''.'' \<notin> set ?a"
    using decimal_no_point by auto
  have "Sprintf_f x = ?a @ CHR ''.'' # ?b"
    by (simp add: Sprintf_f_def Let_def)
  then show ?thesis
    using Split_at_sep [OF a, of ?b] Split_no_sep [OF sixDigits_no_point] by simp
qed

lemma inferRoundNum_eq:
  "inferRoundNum price =
     max 1 (min 8 (6 - int (length ((if price < 0 then ''-'' else []) @
        decimal (nat (roundHalfEven (\<bar>price\<bar> * 1000000)) div 1000000)))))"
  by (simp add: inferRoundNum_def Split_Sprintf_f Let_def)

lemma decimal_numeral [simp]:
  "decimal (numeral k) =
     (if (numeral k :: nat) < 10 then [digitChar (numeral k)]
      else decimal (numeral k div 10) @ [digitChar (numeral k mod 10)])"
  by (rule decimal.simps)

lemma decimal_small [simp]: "n < 10 \<Longrightarrow> decimal n = [digitChar n]"
  by (simp add: decimal.simps)

lemma inferRoundNum_range: "1 \<le> inferRoundNum price" "inferRoundNum price \<le> 8"
  by (simp_all add: inferRoundNum_eq)

section \<open>The bounded history\<close>

lemma addToLimitedSlice_fifo:
  "0 < maxSize md \<Longrightarrow> addToLimitedSlice md s v = Inr (fifo_insert (maxSize md) s v)"
  by (cases s) (auto simp add: addToLimitedSlice_def fifo_insert_def)


lemma round_md_roundNum:
  "round_md md num = math_Round (num * 10 powi (roundNum md)) / 10 powi (roundNum md)"
  by (simp add: round_md_def Let_def)

lemma AddTick_effect:
  assumes "0 < maxSize md"
  shows "\<exists>md'. AddTick tick md = Inr md' \<and> maxSize md' = maxSize md \<and>
     roundNum md' = (if roundNum md = 0 then inferRoundNum (Price tick) else roundNum md) \<and>
     priceHistory md' =
       fifo_insert (maxSize md) (priceHistory md) (round_md md' (Price tick)) \<and>
     volumeHistory md' = fifo_insert (maxSize md) (volumeHistory md) (Volume tick) \<and>
     timeStamps md' = fifo_insert (maxSize md) (timeStamps md) (Timestamp tick) \<and>
     highPrices md' =
       fifo_insert (maxSize md) (highPrices md)
         (if highPrices md = [] \<or> round_md md' (Price tick) > last (highPrices md)
          then round_md md' (Price tick) else last (highPrices md)) \<and>
     lowPrices md' =
       fifo_insert (maxSize md) (lowPrices md)
         (if lowPrices md = [] \<or> round_md md' (Price tick) < last (lowPrices md)
          then round_md md' (Price tick) else last (lowPrices md)) \<and>
     askVolume md' =
       (if IsAsk tick then fifo_insert (maxSize md) (askVolume md) (Volume tick)
        else askVolume md) \<and>
     bidVolume md' =
       (if IsAsk tick then bidVolume md
        else fifo_insert (maxSize md) (bidVolume md) (Volume tick))"
proof (cases "roundNum md = 0"; cases "IsAsk tick")
qed (use assms in \<open>simp_all add: AddTick_def addToLimitedSlice_fifo andThen_def Let_def
      round_md_roundNum\<close>)


lemma round_md_cong: "roundNum md = roundNum md' \<Longrightarrow> round_md md num = round_md md' num"
  by (simp add: round_md_roundNum)



subsection \<open>C5: the histories stay within the capacity, first in first out\<close>




subsection \<open>C10: the rounding precision\<close>

lemma AddTicks_same_precision:
  "0 < maxSize md \<Longrightarrow> roundNum md \<noteq> 0 \<Longrightarrow>
   \<exists>md'. AddTicks ticks md = Inr md' \<and> maxSize md' = maxSize md \<and>
     roundNum md' = roundNum md \<and>
     priceHistory md' =
       foldl (\<lambda>h t. fifo_insert (maxSize md) h (round_md md (Price t))) (priceHistory md) ticks"
proof (induction ticks arbitrary: md)
  case Nil
  then show ?case by simp
next
  case (Cons tick ticks)
  obtain md1 where md1: "AddTick tick md = Inr md1" "maxSize md1 = maxSize md"
    "roundNum md1 = roundNum md"
    "priceHistory md1 =
       fifo_insert (maxSize md) (priceHistory md) (round_md md1 (Price tick))"
    using AddTick_effect [OF Cons.prems(1), of tick] Cons.prems(2) by auto
  have same: "round_md md1 = round_md md"
    using round_md_cong [OF md1(3)] by (rule ext)
  obtain md' where md': "AddTicks ticks md1 = Inr md'" "maxSize md' = maxSize md1"
    "roundNum md' = roundNum md1"
    "priceHistory md' =
       foldl (\<lambda>h t. fifo_insert (maxSize md1) h (round_md md1 (Price t)))
         (priceHistory md1) ticks"
    using Cons.IH [of md1] md1 Cons.prems by auto
  show ?case
    using md1 md' by (simp add: andThen_def same)
qed

lemma AddTicks_fresh:
  assumes "0 < maxSize md" and "roundNum md = 0"
  shows "\<exists>md'. AddTicks (tick # ticks) md = Inr md' \<and>
     roundNum md' = inferRoundNum (Price tick) \<and>
     priceHistory md' =
       foldl (\<lambda>h t. fifo_insert (maxSize md) h (round_md md' (Price t)))
         (priceHistory md) (tick # ticks)"
proof -
  obtain md1 where md1: "AddTick tick md = Inr md1" "maxSize md1 = maxSize md"
    "roundNum md1 = inferRoundNum (Price tick)"
    "priceHistory md1 =
       fifo_insert (maxSize md) (priceHistory md) (round_md md1 (Price tick))"
    using AddTick_effect [OF assms(1), of tick] assms(2) by auto
  have nz: "roundNum md1 \<noteq> 0"
    using inferRoundNum_range(1) [of "Price tick"] md1(3) by simp
  obtain md' where md': "AddTicks ticks md1 = Inr md'" "maxSize md' = maxSize md1"
    "roundNum md' = roundNum md1"
    "priceHistory md' =
       foldl (\<lambda>h t. fifo_insert (maxSize md1) h (round_md md1 (Price t)))
         (priceHistory md1) ticks"
    using AddTicks_same_precision [of md1 ticks] md1(2) assms(1) nz by auto
  have same: "round_md md' = round_md md1"
    using round_md_cong [OF md'(3)] by (rule ext)
  have "AddTicks (tick # ticks) md = Inr md'"
    using md1(1) md'(1) by (simp add: andThen_def)
  moreover have "roundNum md' = inferRoundNum (Price tick)"
    using md'(3) md1(3) by simp
  moreover have "priceHistory md' =
       foldl (\<lambda>h t. fifo_insert (maxSize md) h (round_md md' (Price t)))
         (priceHistory md) (tick # ticks)"
    using md'(4) md1(2,4) by (simp add: same)
  ultimately show ?thesis
    by blast
qed

text \<open>
  C10, as stated, fails. The first price -5 is printed as \<open>-5.000000\<close>: one digit
  stands before the point, which gives \<open>clamp (6 - 1) = 5\<close>, and the store infers the
  precision 4, since it counts the minus sign with the digits. The first price
  \<open>10 - 2\<^sup>-\<^sup>2\<^sup>4\<close> (9.99999994...) has one digit before its point as well, and
  the store infers the precision 4 again, since the price is printed as
  \<open>10.000000\<close>.
\<close>

theorem C10_integer_digits_counterexample:
  "(\<exists>md'. AddTick \<lparr>Price = - 5, Volume = 1, IsAsk = False, Timestamp = 1\<rparr> NewMarketData
            = Inr md' \<and>
          roundNum md' = 4) \<and>
   length (decimal (nat \<lfloor>\<bar>- 5 :: real\<bar>\<rfloor>)) = 1 \<and>
   (\<exists>md'. AddTick \<lparr>Price = 10 - 1 / 16777216, Volume = 1, IsAsk = False, Timestamp = 1\<rparr>
             NewMarketData = Inr md' \<and>
          roundNum md' = 4) \<and>
   length (decimal (nat \<lfloor>10 - 1 / 16777216 :: real\<rfloor>)) = 1 \<and>
   max 1 (min 8 (6 - 1)) = (5 :: int)"
proof -
  have new: "0 < maxSize NewMarketData" "roundNum NewMarketData = 0"
    by (simp_all add: NewMarketData_def)
  have i1: "inferRoundNum (- 5) = 4"
    by (simp add: inferRoundNum_eq roundHalfEven_def Let_def)
  have i2: "inferRoundNum (10 - 1 / 16777216) = 4"
    by (simp add: inferRoundNum_eq roundHalfEven_def Let_def)
  have one: "\<exists>md'. AddTick \<lparr>Price = - 5, Volume = 1, IsAsk = False, Timestamp = 1\<rparr>
                 NewMarketData = Inr md' \<and> roundNum md' = 4"
    using AddTick_effect [OF new(1),
        of "\<lparr>Price = - 5, Volume = 1, IsAsk = False, Timestamp = 1\<rparr>"] new(2) i1
    by auto
  have two: "\<exists>md'. AddTick \<lparr>Price = 10 - 1 / 16777216, Volume = 1, IsAsk = False,
                  Timestamp = 1\<rparr> NewMarketData = Inr md' \<and> roundNum md' = 4"
    using AddTick_effect [OF new(1),
        of "\<lparr>Price = 10 - 1 / 16777216, Volume = 1, IsAsk = False, Timestamp = 1\<rparr>"]
      new(2) i2
    by auto
  have "\<lfloor>10 - 1 / 16777216 :: real\<rfloor> = 9"
    by (simp add: floor_eq_iff)
  then have d: "length (decimal (nat \<lfloor>10 - 1 / 16777216 :: real\<rfloor>)) = 1"
    by simp
  show ?thesis
    using one two d by simp
qed

text \<open>
  C10, amended: a store that has no precision yet (a new store, or one after
  \<^verbatim>\<open>Reset\<close>) infers it on the first \<^verbatim>\<open>AddTick\<close> from that tick's price, as
  \<open>clamp (6 - n) 1 8\<close> where \<open>n\<close> is the length of the text before the point in the
  price printed with six decimals: the digits of its integer part and, for a negative
  price, the minus sign. Whatever ticks follow, the precision stays the one inferred
  from the first, every price put into the history is rounded to it, and
  \<^verbatim>\<open>Reset\<close> clears it.
\<close>

theorem C10_precision_inferred_once:
  assumes "0 < maxSize md" and "roundNum md = 0"
  shows "\<exists>md'. AddTicks (tick # ticks) md = Inr md' \<and>
     roundNum md' =
       max 1 (min 8 (6 - int (length ((if Price tick < 0 then ''-'' else []) @
          decimal (nat (roundHalfEven (\<bar>Price tick\<bar> * 1000000)) div 1000000))))) \<and>
     roundNum md' = inferRoundNum (Price tick) \<and>
     priceHistory md' =
       foldl (\<lambda>h t. fifo_insert (maxSize md) h (round_md md' (Price t)))
         (priceHistory md) (tick # ticks) \<and>
     roundNum (Reset md') = 0"
proof -
  obtain md' where "AddTicks (tick # ticks) md = Inr md'"
    "roundNum md' = inferRoundNum (Price tick)"
    "priceHistory md' =
       foldl (\<lambda>h t. fifo_insert (maxSize md) h (round_md md' (Price t)))
         (priceHistory md) (tick # ticks)"
    using AddTicks_fresh [OF assms] by blast
  moreover have "roundNum (Reset md') = 0"
    by (simp add: Reset_def)
  ultimately show ?thesis
    by (simp add: inferRoundNum_eq)
qed

theorem C10_precision_inferred_once_witness:
  "0 < maxSize NewMarketData \<and> roundNum NewMarketData = 0 \<and>
   (\<exists>md'. AddTicks [\<lparr>Price = 123.4567891, Volume = 1, IsAsk = False, Timestamp = 1\<rparr>,
                     \<lparr>Price = 99.00049, Volume = 2, IsAsk = True, Timestamp = 2\<rparr>]
             NewMarketData = Inr md' \<and>
          roundNum md' = 3 \<and> priceHistory md' = [123.457, 99])"
proof -
  have a: "0 < maxSize NewMarketData" and b: "roundNum NewMarketData = 0"
    by (simp_all add: NewMarketData_def)
  obtain md' where md':
    "AddTicks [\<lparr>Price = 123.4567891, Volume = 1, IsAsk = False, Timestamp = 1\<rparr>,
               \<lparr>Price = 99.00049, Volume = 2, IsAsk = True, Timestamp = 2\<rparr>]
       NewMarketData = Inr md'"
    "roundNum md' = max 1 (min 8 (6 - int (length ((if (123.4567891 :: real) < 0 then ''-'' else []) @
          decimal (nat (roundHalfEven (\<bar>123.4567891\<bar> * 1000000)) div 1000000)))))"
    "priceHistory md' =
       foldl (\<lambda>h t. fifo_insert (maxSize NewMarketData) h (round_md md' (Price t)))
         (priceHistory NewMarketData)
         [\<lparr>Price = 123.4567891, Volume = 1, IsAsk = False, Timestamp = 1\<rparr>,
          \<lparr>Price = 99.00049, Volume = 2, IsAsk = True, Timestamp = 2\<rparr>]"
    using C10_precision_inferred_once [OF a b,
        of "\<lparr>Price = 123.4567891, Volume = 1, IsAsk = False, Timestamp = 1\<rparr>"
           "[\<lparr>Price = 99.00049, Volume = 2, IsAsk = True, Timestamp = 2\<rparr>]"]
    by auto
  have r: "roundNum md' = 3"
    unfolding md'(2) by (simp add: roundHalfEven_def Let_def)
  have "priceHistory md' = [123.457, 99]"
    unfolding md'(3)
    by (simp add: round_md_roundNum r math_Round_def fifo_insert_def NewMarketData_def)
  with a b md'(1) r show ?thesis
    by blast
qed


section \<open>The analyzer\<close>

lemma calculateATR_Inr:
  assumes "length prices \<noteq> 14"
  shows "\<exists>atr. calculateATR md a prices = Inr atr"
proof -
  have "calculateATR md a prices \<noteq> Inl e" for e
    unfolding calculateATR_def Let_def using assms by (auto split: if_splits)
  then show ?thesis
    by (cases "calculateATR md a prices") auto
qed

lemma calculateATR_same:
  "14 \<le> length (highPrices md) \<Longrightarrow> 14 \<le> length (lowPrices md) \<Longrightarrow> 14 \<le> length prices \<Longrightarrow>
   calculateATR md a prices = calculateATR md b prices"
  by (simp add: calculateATR_def Let_def GetHighPricesArray_def GetLowPricesArray_def)

lemma calculateMetrics_Inr:
  assumes "length (priceHistory md) \<noteq> 14"
  shows "\<exists>a'. calculateMetrics md a = Inr a' \<and> warmupComplete a' = warmupComplete a \<and>
           warmupTicks a' = warmupTicks a"
proof -
  obtain atr where "calculateATR md a (priceHistory md) = Inr atr"
    using calculateATR_Inr [OF assms] by blast
  then show ?thesis
    by (simp add: calculateMetrics_def GetPriceArray_def andThen_def Let_def)
qed

lemma ProcessTick_warmup:
  "\<exists>m a'. ProcessTick tick md a = Inr (m, a') \<and> warmupTicks a' = warmupTicks a \<and>
     (m = None \<longleftrightarrow> \<not> HasMinimumData md 20) \<and>
     (warmupComplete a' \<longleftrightarrow>
        warmupComplete a \<or> HasMinimumData md 20 \<and> HasMinimumData md (warmupTicks a))"
proof (cases "HasMinimumData md 20")
  case False
  then show ?thesis
    by (simp add: ProcessTick_def)
next
  case True
  then have "length (priceHistory md) \<noteq> 14"
    by (auto simp add: HasMinimumData_def)
  then obtain a1 where a1: "calculateMetrics md a = Inr a1" "warmupComplete a1 = warmupComplete a"
    "warmupTicks a1 = warmupTicks a"
    using calculateMetrics_Inr by blast
  show ?thesis
    using True a1 by (auto simp add: ProcessTick_def andThen_def Let_def)
qed

lemma ProcessTickCalls_warmup:
  "\<exists>a'. ProcessTickCalls calls a = Inr a' \<and> warmupTicks a' = warmupTicks a \<and>
     (warmupComplete a' \<longleftrightarrow>
        warmupComplete a \<or>
        (\<exists>(tick, md) \<in> set calls. HasMinimumData md 20 \<and> HasMinimumData md (warmupTicks a)))"
proof (induction calls arbitrary: a)
  case Nil
  then show ?case by simp
next
  case (Cons c calls)
  obtain tick md where c: "c = (tick, md)"
    by (cases c)
  obtain m a1 where a1: "ProcessTick tick md a = Inr (m, a1)" "warmupTicks a1 = warmupTicks a"
    "warmupComplete a1 \<longleftrightarrow>
       warmupComplete a \<or> HasMinimumData md 20 \<and> HasMinimumData md (warmupTicks a)"
    using ProcessTick_warmup [of tick md a] by blast
  obtain a' where a': "ProcessTickCalls calls a1 = Inr a'" "warmupTicks a' = warmupTicks a1"
    "warmupComplete a' \<longleftrightarrow>
       warmupComplete a1 \<or>
       (\<exists>(tick, md) \<in> set calls. HasMinimumData md 20 \<and> HasMinimumData md (warmupTicks a1))"
    using Cons.IH [of a1] by blast
  have "ProcessTickCalls (c # calls) a = Inr a'"
    using a1(1) a'(1) by (simp add: c andThen_def)
  moreover have "warmupTicks a' = warmupTicks a"
    using a1(2) a'(2) by simp
  moreover have "warmupComplete a' \<longleftrightarrow>
        warmupComplete a \<or>
        (\<exists>(tick, md) \<in> set (c # calls).
            HasMinimumData md 20 \<and> HasMinimumData md (warmupTicks a))"
    using a1(2,3) a'(3) by (auto simp add: c)
  ultimately show ?case
    by blast
qed

lemma AddTick_length:
  assumes "int (length (priceHistory md)) < maxSize md"
  shows "\<exists>md'. AddTick tick md = Inr md' \<and> maxSize md' = maxSize md \<and>
           length (priceHistory md') = Suc (length (priceHistory md))"
proof -
  have pos: "0 < maxSize md"
    using assms by linarith
  obtain md' where "AddTick tick md = Inr md'" "maxSize md' = maxSize md"
    "priceHistory md' =
       fifo_insert (maxSize md) (priceHistory md) (round_md md' (Price tick))"
    using AddTick_effect [OF pos, of tick] by blast
  then show ?thesis
    using assms by (simp add: fifo_insert_def)
qed

lemma AddTicks_length:
  "int (length (priceHistory md) + length ticks) \<le> maxSize md \<Longrightarrow>
   \<exists>md'. AddTicks ticks md = Inr md' \<and> maxSize md' = maxSize md \<and>
     length (priceHistory md') = length (priceHistory md) + length ticks"
proof (induction ticks arbitrary: md)
  case Nil
  then show ?case by simp
next
  case (Cons tick ticks)
  have "int (length (priceHistory md)) < maxSize md"
    using Cons.prems by simp
  then obtain md1 where md1: "AddTick tick md = Inr md1" "maxSize md1 = maxSize md"
    "length (priceHistory md1) = Suc (length (priceHistory md))"
    using AddTick_length by blast
  obtain md' where md': "AddTicks ticks md1 = Inr md'" "maxSize md' = maxSize md1"
    "length (priceHistory md') = length (priceHistory md1) + length ticks"
    using Cons.IH [of md1] Cons.prems md1 by auto
  show ?case
    using md1 md' by (simp add: andThen_def)
qed

subsection \<open>C7: the warm-up flag\<close>

text \<open>
  C7, as stated, fails for a threshold under 20. With the threshold set to 10, ten
  ticks bring the history of a new store to length 10, the threshold, and
  \<^verbatim>\<open>ProcessTick\<close> on that store leaves the flag false: it returns before it looks
  at the threshold while the history is shorter than 20.
\<close>

theorem C7_threshold_below_minimum_counterexample:
  "\<exists>md. AddTicks (replicate 10 \<lparr>Price = 100, Volume = 1, IsAsk = False, Timestamp = 1\<rparr>)
           NewMarketData = Inr md \<and>
       length (priceHistory md) = 10 \<and>
       warmupTicks (SetWarmupTicks 10 NewAnalyzer) = 10 \<and>
       HasMinimumData md (warmupTicks (SetWarmupTicks 10 NewAnalyzer)) \<and>
       ProcessTick \<lparr>Price = 100, Volume = 1, IsAsk = False, Timestamp = 1\<rparr> md
           (SetWarmupTicks 10 NewAnalyzer) =
         Inr (None, SetWarmupTicks 10 NewAnalyzer) \<and>
       \<not> HasSufficientData (SetWarmupTicks 10 NewAnalyzer)"
proof -
  have "int (length (priceHistory NewMarketData) +
          length (replicate 10 \<lparr>Price = 100, Volume = 1, IsAsk = False, Timestamp = 1\<rparr>))
        \<le> maxSize NewMarketData"
    by (simp add: NewMarketData_def)
  from AddTicks_length [OF this]
  obtain md where md:
    "AddTicks (replicate 10 \<lparr>Price = 100, Volume = 1, IsAsk = False, Timestamp = 1\<rparr>)
       NewMarketData = Inr md"
    "length (priceHistory md) = 10"
    by (auto simp add: NewMarketData_def)
  have "ProcessTick \<lparr>Price = 100, Volume = 1, IsAsk = False, Timestamp = 1\<rparr> md
           (SetWarmupTicks 10 NewAnalyzer) =
         Inr (None, SetWarmupTicks 10 NewAnalyzer)"
    using md(2) by (simp add: ProcessTick_def HasMinimumData_def)
  then show ?thesis
    using md
    by (auto simp add: HasMinimumData_def HasSufficientData_def SetWarmupTicks_def
        NewAnalyzer_def)
qed

text \<open>
  C7, amended: over any sequence of \<^verbatim>\<open>ProcessTick\<close> calls the flag is true at
  the end exactly when it was true at the start or some call saw a history that had
  reached both the warm-up threshold and the minimum of 20 prices that
  \<^verbatim>\<open>ProcessTick\<close> asks for first. So the flag of a new analyzer (false, threshold
  300) is false while no call has seen such a history, it is true from the first call
  that has, and it stays true whatever the later calls see, a shorter history
  included. The calls always return and leave the threshold as it is.
\<close>

theorem C7_warmup_latch:
  "\<exists>a'. ProcessTickCalls calls a = Inr a' \<and> warmupTicks a' = warmupTicks a \<and>
     (HasSufficientData a' \<longleftrightarrow>
        HasSufficientData a \<or>
        (\<exists>(tick, md) \<in> set calls.
            HasMinimumData md 20 \<and> HasMinimumData md (warmupTicks a))) \<and>
     \<not> HasSufficientData NewAnalyzer \<and> warmupTicks NewAnalyzer = 300"
  using ProcessTickCalls_warmup [of calls a]
  by (simp add: HasSufficientData_def NewAnalyzer_def)


subsection \<open>C9: relative strength and order imbalance\<close>

text \<open>
  The lemmas on the range of the two quotients hold in exact arithmetic, whatever the
  size of the sums. In the program a sum of gains or of bid volumes past the largest
  \<^verbatim>\<open>float64\<close> is infinite and the quotient is then NaN, which is why the
  statement on the range further down bounds the two sums.
\<close>

lemma gains_losses_fold:
  "fold (\<lambda>ret (gains, losses).
           if ret > 0 then (gains + ret, losses) else (gains, losses - ret)) rs (g, l) =
   (g + sum_list (filter (\<lambda>r. 0 < r) rs),
    l + sum_list (map uminus (filter (\<lambda>r. \<not> 0 < r) rs)))"
  for g l :: real
  by (induction rs arbitrary: g l) simp_all

lemma gains_nonneg: "0 \<le> sum_list (filter (\<lambda>r. 0 < r) rs)" for rs :: "real list"
  by (rule sum_list_nonneg) auto

lemma losses_nonneg: "0 \<le> sum_list (map uminus (filter (\<lambda>r. \<not> 0 < r) rs))" for rs :: "real list"
  by (rule sum_list_nonneg) auto

lemma ratio_in_unit_interval:
  "0 \<le> g \<Longrightarrow> 0 \<le> l \<Longrightarrow> 0 \<le> (if g + l = 0 then 0.5 else g / (g + l)) \<and>
     (if g + l = 0 then 0.5 else g / (g + l)) \<le> 1"
  for g l :: real
  by (simp add: divide_le_eq_1)

lemma calculateRelativeStrength_eq:
  "calculateRelativeStrength returns =
     (if length returns < 2 then 0.5
      else
        (let w = drop (length returns - min 500 (length returns)) returns;
             gains = sum_list (filter (\<lambda>r. 0 < r) w);
             losses = sum_list (map uminus (filter (\<lambda>r. \<not> 0 < r) w))
         in if gains + losses = 0 then 0.5 else gains / (gains + losses)))"
  by (simp add: calculateRelativeStrength_def gains_losses_fold Let_def)

lemma calculateRelativeStrength_range:
  "0 \<le> calculateRelativeStrength returns \<and> calculateRelativeStrength returns \<le> 1"
proof (cases "length returns < 2")
  case True
  then show ?thesis
    by (simp add: calculateRelativeStrength_eq)
next
  case False
  then show ?thesis
    using ratio_in_unit_interval [OF gains_nonneg losses_nonneg,
        of "drop (length returns - min 500 (length returns)) returns"
           "drop (length returns - min 500 (length returns)) returns"]
    by (simp add: calculateRelativeStrength_eq Let_def)
qed

lemma calculateOrderImbalance_range:
  assumes "\<forall>v \<in> set (bidVolume md). 0 \<le> v" and "\<forall>v \<in> set (askVolume md). 0 \<le> v"
  shows "0 \<le> calculateOrderImbalance md \<and> calculateOrderImbalance md \<le> 1"
proof -
  have "0 \<le> sum_list (bidVolume md)" "0 \<le> sum_list (askVolume md)"
    using assms by (simp_all add: sum_list_nonneg)
  from ratio_in_unit_interval [OF this] show ?thesis
    by (simp add: calculateOrderImbalance_def GetBidVolumeArray_def GetAskVolumeArray_def
        Let_def)
qed

text \<open>
  C9, as stated, fails for the order imbalance: nothing keeps a volume from being
  negative. A bid of volume 3 and an ask of volume -1 on a new store give the order
  imbalance \<open>3 / (3 - 1) = 1.5\<close>.
\<close>

theorem C9_order_imbalance_counterexample:
  "\<exists>md. AddTicks [\<lparr>Price = 100, Volume = 3, IsAsk = False, Timestamp = 1\<rparr>,
                   \<lparr>Price = 100, Volume = - 1, IsAsk = True, Timestamp = 2\<rparr>] NewMarketData
           = Inr md \<and>
        bidVolume md = [3] \<and> askVolume md = [- 1] \<and>
        calculateOrderImbalance md = 3 / 2 \<and> \<not> calculateOrderImbalance md \<le> 1"
proof -
  have "0 < maxSize NewMarketData"
    by (simp add: NewMarketData_def)
  from AddTick_effect [OF this, of "\<lparr>Price = 100, Volume = 3, IsAsk = False, Timestamp = 1\<rparr>"]
  obtain md1 where md1:
    "AddTick \<lparr>Price = 100, Volume = 3, IsAsk = False, Timestamp = 1\<rparr> NewMarketData = Inr md1"
    "maxSize md1 = 1000" "bidVolume md1 = [3]" "askVolume md1 = []"
    by (auto simp add: NewMarketData_def fifo_insert_def)
  have "0 < maxSize md1"
    using md1(2) by simp
  from AddTick_effect [OF this, of "\<lparr>Price = 100, Volume = - 1, IsAsk = True, Timestamp = 2\<rparr>"]
  obtain md where md:
    "AddTick \<lparr>Price = 100, Volume = - 1, IsAsk = True, Timestamp = 2\<rparr> md1 = Inr md"
    "bidVolume md = [3]" "askVolume md = [- 1]"
    using md1(2-4) by (auto simp add: fifo_insert_def)
  have "AddTicks [\<lparr>Price = 100, Volume = 3, IsAsk = False, Timestamp = 1\<rparr>,
                   \<lparr>Price = 100, Volume = - 1, IsAsk = True, Timestamp = 2\<rparr>] NewMarketData
          = Inr md"
    using md1(1) md(1) by (simp add: andThen_def)
  moreover have "calculateOrderImbalance md = 3 / 2"
    using md(2,3)
    by (simp add: calculateOrderImbalance_def GetBidVolumeArray_def GetAskVolumeArray_def)
  ultimately show ?thesis
    using md(2,3) by simp
qed

text \<open>
  C9, amended: the relative strength is 0.5 when there are fewer than 2 returns or
  when gains plus losses, over the last 500 returns at most, is 0; it lies in
  \<open>[0, 1]\<close> for every list of (finite) returns whose gains over that window are at
  most \<open>10 ^ 300\<close>. The order imbalance lies in \<open>[0, 1]\<close> for every store whose bid
  and ask volumes are not negative and whose bid volumes sum to at most \<open>10 ^ 300\<close>,
  and on such a store it is 0.5 when the total bid plus ask volume is 0. The two
  bounds keep the gains and the bid total of the program finite; an infinite
  \<open>losses\<close> or ask total gives the quotient 0 there.
\<close>

theorem C9_ratios_in_unit_interval:
  "(length returns < 2 \<longrightarrow> calculateRelativeStrength returns = 0.5) \<and>
   (let w = drop (length returns - min 500 (length returns)) returns;
        gains = sum_list (filter (\<lambda>r. 0 < r) w);
        losses = sum_list (map uminus (filter (\<lambda>r. \<not> 0 < r) w))
    in (gains + losses = 0 \<longrightarrow> calculateRelativeStrength returns = 0.5) \<and>
       (gains \<le> 10 ^ 300 \<longrightarrow>
          0 \<le> calculateRelativeStrength returns \<and> calculateRelativeStrength returns \<le> 1)) \<and>
   ((\<forall>v \<in> set (bidVolume md). 0 \<le> v) \<and> (\<forall>v \<in> set (askVolume md). 0 \<le> v) \<and>
    sum_list (bidVolume md) \<le> 10 ^ 300 \<longrightarrow>
      0 \<le> calculateOrderImbalance md \<and> calculateOrderImbalance md \<le> 1 \<and>
      (sum_list (bidVolume md) + sum_list (askVolume md) = 0 \<longrightarrow>
         calculateOrderImbalance md = 0.5))"
proof -
  have rs: "0 \<le> calculateRelativeStrength returns \<and> calculateRelativeStrength returns \<le> 1"
    by (rule calculateRelativeStrength_range)
  have few: "length returns < 2 \<longrightarrow> calculateRelativeStrength returns = 0.5"
    by (simp add: calculateRelativeStrength_eq)
  have form: "let w = drop (length returns - min 500 (length returns)) returns;
        gains = sum_list (filter (\<lambda>r. 0 < r) w);
        losses = sum_list (map uminus (filter (\<lambda>r. \<not> 0 < r) w))
    in gains + losses = 0 \<longrightarrow> calculateRelativeStrength returns = 0.5"
    by (simp add: calculateRelativeStrength_eq Let_def)
  have oi: "(\<forall>v \<in> set (bidVolume md). 0 \<le> v) \<and> (\<forall>v \<in> set (askVolume md). 0 \<le> v) \<longrightarrow>
      0 \<le> calculateOrderImbalance md \<and> calculateOrderImbalance md \<le> 1"
    using calculateOrderImbalance_range by blast
  have zero: "sum_list (bidVolume md) + sum_list (askVolume md) = 0 \<longrightarrow>
      calculateOrderImbalance md = 0.5"
    by (simp add: calculateOrderImbalance_def GetBidVolumeArray_def GetAskVolumeArray_def)
  show ?thesis
    using rs few form oi zero unfolding Let_def by blast
qed

theorem C9_ratios_in_unit_interval_witness:
  "bidVolume (NewMarketData\<lparr>bidVolume := [3], askVolume := [1]\<rparr>) = [3] \<and>
   askVolume (NewMarketData\<lparr>bidVolume := [3], askVolume := [1]\<rparr>) = [1] \<and>
   (0 :: float64) \<le> 3 \<and> (0 :: float64) \<le> 1 \<and> (3 :: float64) \<le> 10 ^ 300 \<and>
   calculateOrderImbalance (NewMarketData\<lparr>bidVolume := [3], askVolume := [1]\<rparr>) = 3 / 4 \<and>
   0 \<le> calculateOrderImbalance (NewMarketData\<lparr>bidVolume := [3], askVolume := [1]\<rparr>) \<and>
   calculateOrderImbalance (NewMarketData\<lparr>bidVolume := [3], askVolume := [1]\<rparr>) \<le> 1 \<and>
   bidVolume NewMarketData = [] \<and> askVolume NewMarketData = [] \<and>
   calculateOrderImbalance NewMarketData = 0.5 \<and>
   length [0.25 :: float64] < 2 \<and> calculateRelativeStrength [0.25] = 0.5 \<and>
   sum_list (filter (\<lambda>r. 0 < r) [0.1, - 0.1, 0.2 :: float64]) = 3 / 10 \<and>
   (3 / 10 :: float64) \<le> 10 ^ 300 \<and>
   calculateRelativeStrength [0.1, - 0.1, 0.2] = 3 / 4 \<and>
   0 \<le> calculateRelativeStrength [0.1, - 0.1, 0.2] \<and>
   calculateRelativeStrength [0.1, - 0.1, 0.2] \<le> 1 \<and>
   calculateRelativeStrength [0, 0, 0] = 0.5"
proof -
  have big: "(3 :: float64) \<le> 10 ^ 300" "(3 / 10 :: float64) \<le> 10 ^ 300"
    "(0 :: float64) \<le> 10 ^ 300"
    by simp_all
  have v: "(\<forall>v \<in> set (bidVolume (NewMarketData\<lparr>bidVolume := [3], askVolume := [1]\<rparr>)). 0 \<le> v) \<and>
   (\<forall>v \<in> set (askVolume (NewMarketData\<lparr>bidVolume := [3], askVolume := [1]\<rparr>)). 0 \<le> v) \<and>
   sum_list (bidVolume (NewMarketData\<lparr>bidVolume := [3], askVolume := [1]\<rparr>)) \<le> 10 ^ 300"
    using big(1) by simp
  have n: "bidVolume NewMarketData = []" "askVolume NewMarketData = []"
    by (simp_all add: NewMarketData_def)
  have z: "(\<forall>v \<in> set (bidVolume NewMarketData). 0 \<le> v) \<and>
   (\<forall>v \<in> set (askVolume NewMarketData). 0 \<le> v) \<and>
   sum_list (bidVolume NewMarketData) \<le> 10 ^ 300"
    "sum_list (bidVolume NewMarketData) + sum_list (askVolume NewMarketData) = 0"
    using big(3) by (simp_all add: n)
  have e: "calculateOrderImbalance (NewMarketData\<lparr>bidVolume := [3], askVolume := [1]\<rparr>) = 3 / 4"
    by (simp add: calculateOrderImbalance_def GetBidVolumeArray_def GetAskVolumeArray_def)
  have l: "length [0.25 :: float64] < 2"
    by simp
  have g: "sum_list (filter (\<lambda>r. 0 < r) [0.1, - 0.1, 0.2 :: float64]) = 3 / 10"
    by simp
  have w: "drop (length [0.1, - 0.1, 0.2 :: float64] - min 500 (length [0.1, - 0.1, 0.2 :: float64]))
             [0.1, - 0.1, 0.2 :: float64] = [0.1, - 0.1, 0.2]"
    "drop (length [0, 0, 0 :: float64] - min 500 (length [0, 0, 0 :: float64]))
             [0, 0, 0 :: float64] = [0, 0, 0]"
    by simp_all
  note t1 = C9_ratios_in_unit_interval
      [of "[0.25]" "NewMarketData\<lparr>bidVolume := [3], askVolume := [1]\<rparr>"]
  note t2 = C9_ratios_in_unit_interval [of "[0.1, - 0.1, 0.2]" NewMarketData]
  note t3 = C9_ratios_in_unit_interval [of "[0, 0, 0]" NewMarketData]
  have a: "0 \<le> calculateOrderImbalance (NewMarketData\<lparr>bidVolume := [3], askVolume := [1]\<rparr>) \<and>
      calculateOrderImbalance (NewMarketData\<lparr>bidVolume := [3], askVolume := [1]\<rparr>) \<le> 1"
    using t1 v by blast
  have b: "calculateRelativeStrength [0.25] = 0.5"
    using t1 l by blast
  have c: "calculateOrderImbalance NewMarketData = 0.5"
    using t2 z by blast
  have d: "0 \<le> calculateRelativeStrength [0.1, - 0.1, 0.2] \<and>
      calculateRelativeStrength [0.1, - 0.1, 0.2] \<le> 1"
    using t2 big(2) unfolding Let_def w g by blast
  have d': "calculateRelativeStrength [0.1, - 0.1, 0.2] = 3 / 4"
    by (simp add: calculateRelativeStrength_eq)
  have f: "calculateRelativeStrength [0, 0, 0] = 0.5"
    using t3 unfolding Let_def w by simp
  show ?thesis
    using big e l a b c d d' f g n by simp
qed

subsection \<open>The regression in exact arithmetic\<close>

text \<open>
  The lemmas of this section hold in exact arithmetic only. They are used on the
  prices 1, 2, ..., 30, on which the five sums of the program and the differences
  \<open>n * sumXY - sumX * sumY\<close> and \<open>n * sumYY - sumY * sumY\<close> are small integers
  and exact; on other prices the differences of the program can cancel where those
  of the reals do not.
\<close>

lemma regression_fold:
  "fold (\<lambda>(xi, yi) (sumX, sumY, sumXY, sumXX, sumYY).
           (sumX + xi, sumY + yi, sumXY + xi * yi, sumXX + xi * xi, sumYY + yi * yi))
     zs (a, b, c, d, e) =
   (a + (\<Sum>(xi, yi) \<leftarrow> zs. xi), b + (\<Sum>(xi, yi) \<leftarrow> zs. yi),
    c + (\<Sum>(xi, yi) \<leftarrow> zs. xi * yi), d + (\<Sum>(xi, yi) \<leftarrow> zs. xi * xi),
    e + (\<Sum>(xi, yi) \<leftarrow> zs. yi * yi))"
  for a b c d e :: real
  by (induction zs arbitrary: a b c d e) (simp_all add: split_def)

lemma sum_list_zip_nth:
  "length x = length y \<Longrightarrow>
   (\<Sum>(xi, yi) \<leftarrow> zip x y. h xi yi) = (\<Sum>i < length x. h (x ! i) (y ! i))"
  for h :: "real \<Rightarrow> real \<Rightarrow> real"
  by (simp add: sum_list_sum_nth atLeast0LessThan split_def)

lemma regressionSums_nth:
  assumes "length x = length y"
  shows "regressionSums x y =
     (\<Sum>i < length x. x ! i, \<Sum>i < length x. y ! i, \<Sum>i < length x. x ! i * y ! i,
      \<Sum>i < length x. x ! i * x ! i, \<Sum>i < length x. y ! i * y ! i)"
  unfolding regressionSums_def regression_fold
  using sum_list_zip_nth [OF assms, of "\<lambda>a b. a"] sum_list_zip_nth [OF assms, of "\<lambda>a b. b"]
    sum_list_zip_nth [OF assms, of "\<lambda>a b. a * b"] sum_list_zip_nth [OF assms, of "\<lambda>a b. a * a"]
    sum_list_zip_nth [OF assms, of "\<lambda>a b. b * b"]
  by simp

lemma covariance_double_sum:
  "(\<Sum>i < n. \<Sum>j < n. (f i - f j) * (g i - g j)) =
     2 * (real n * (\<Sum>i < n. f i * g i) - (\<Sum>i < n. f i) * (\<Sum>i < n. g i))"
  for f g :: "nat \<Rightarrow> real"
proof -
  define F G S where "F = (\<Sum>j < n. f j)" and "G = (\<Sum>j < n. g j)"
    and "S = (\<Sum>j < n. f j * g j)"
  have inner: "(\<Sum>j < n. (f i - f j) * (g i - g j)) =
      real n * (f i * g i) - f i * G - g i * F + S" for i
  proof -
    have "(\<Sum>j < n. (f i - f j) * (g i - g j)) =
          (\<Sum>j < n. f i * g i - f i * g j - g i * f j + f j * g j)"
      by (rule sum.cong) (simp_all add: algebra_simps)
    also have "\<dots> = (\<Sum>j < n. f i * g i) - (\<Sum>j < n. f i * g j) - (\<Sum>j < n. g i * f j)
                      + (\<Sum>j < n. f j * g j)"
      by (simp add: sum.distrib sum_subtractf)
    also have "\<dots> = real n * (f i * g i) - f i * G - g i * F + S"
      by (simp add: F_def G_def S_def sum_distrib_left)
    finally show ?thesis .
  qed
  have "(\<Sum>i < n. \<Sum>j < n. (f i - f j) * (g i - g j)) =
        (\<Sum>i < n. real n * (f i * g i) - f i * G - g i * F + S)"
    by (simp add: inner)
  also have "\<dots> = (\<Sum>i < n. real n * (f i * g i)) - (\<Sum>i < n. f i * G) - (\<Sum>i < n. g i * F)
                    + (\<Sum>i < n. S)"
    by (simp add: sum.distrib sum_subtractf)
  also have "\<dots> = real n * S - F * G - G * F + real n * S"
  proof -
    have "(\<Sum>i < n. real n * (f i * g i)) = real n * S"
      unfolding S_def by (simp add: sum_distrib_left)
    moreover have "(\<Sum>i < n. f i * G) = F * G"
      unfolding F_def by (simp add: sum_distrib_right)
    moreover have "(\<Sum>i < n. g i * F) = G * F"
      unfolding G_def by (simp add: sum_distrib_right)
    moreover have "(\<Sum>i < n. S) = real n * S"
      by simp
    ultimately show ?thesis
      by simp
  qed
  finally show ?thesis
    by (simp add: F_def G_def S_def algebra_simps)
qed

lemma covariance_positive:
  fixes f g :: "nat \<Rightarrow> real"
  assumes nonneg: "\<And>i j. i < n \<Longrightarrow> j < n \<Longrightarrow> 0 \<le> (f i - f j) * (g i - g j)"
    and a: "a < n" and b: "b < n" and pos: "0 < (f a - f b) * (g a - g b)"
  shows "0 < real n * (\<Sum>i < n. f i * g i) - (\<Sum>i < n. f i) * (\<Sum>i < n. g i)"
proof -
  have inner: "0 \<le> (\<Sum>j < n. (f i - f j) * (g i - g j))" if "i < n" for i
    using nonneg that by (intro sum_nonneg) simp
  have at_a: "0 < (\<Sum>j < n. (f a - f j) * (g a - g j))"
    by (rule sum_pos2 [where i = b]) (use nonneg a b pos in simp_all)
  have "0 < (\<Sum>i < n. \<Sum>j < n. (f i - f j) * (g i - g j))"
    by (rule sum_pos2 [where i = a]) (use inner a at_a in simp_all)
  then show ?thesis
    unfolding covariance_double_sum by simp
qed


lemma linearRegression_nth:
  assumes "length x = length y" and "2 \<le> length x"
  shows "linearRegression x y =
     (let n = real (length x);
          N = n * (\<Sum>i < length x. x ! i * y ! i)
                - (\<Sum>i < length x. x ! i) * (\<Sum>i < length x. y ! i);
          Dx = n * (\<Sum>i < length x. x ! i * x ! i)
                - (\<Sum>i < length x. x ! i) * (\<Sum>i < length x. x ! i);
          Dy = n * (\<Sum>i < length x. y ! i * y ! i)
                - (\<Sum>i < length x. y ! i) * (\<Sum>i < length x. y ! i)
      in (N / Dx,
          ((\<Sum>i < length x. y ! i) - N / Dx * (\<Sum>i < length x. x ! i)) / n,
          if sqrt (Dx * Dy) = 0 then 0 else N / sqrt (Dx * Dy)))"
  using assms by (simp add: linearRegression_def regressionSums_nth Let_def)

lemma trend_strength_sign:
  assumes len: "30 \<le> length prices" and pos: "\<forall>p \<in> set prices. 0 < p"
  shows "sorted_wrt (<) prices \<Longrightarrow> 0 < calculateTrendStrength prices"
    and "sorted_wrt (>) prices \<Longrightarrow> calculateTrendStrength prices < 0"
proof -
  define w where "w = drop (length prices - 30) prices"
  define x where "x = map real [0 ..< 30]"
  have lw: "length w = 30" and lx: "length x = 30"
    using len by (simp_all add: w_def x_def)
  have xn: "x ! i = real i" if "i < 30" for i
    using that by (simp add: x_def)
  have wn: "w ! i = prices ! (length prices - 30 + i)" if "i < 30" for i
    using that len by (simp add: w_def)
  have wpos: "0 < w ! i" if "i < 30" for i
    using pos lw that by (metis in_set_dropD nth_mem w_def)
  define N where "N = 30 * (\<Sum>i < 30. x ! i * w ! i) - (\<Sum>i < 30. x ! i) * (\<Sum>i < 30. w ! i)"
  define Dx where "Dx = 30 * (\<Sum>i < 30. x ! i * x ! i) - (\<Sum>i < 30. x ! i) * (\<Sum>i < 30. x ! i)"
  define Dy where "Dy = 30 * (\<Sum>i < 30. w ! i * w ! i) - (\<Sum>i < 30. w ! i) * (\<Sum>i < 30. w ! i)"
  define r where "r = (if sqrt (Dx * Dy) = 0 then 0 else N / sqrt (Dx * Dy))"
  have lr: "linearRegression x w = (N / Dx, ((\<Sum>i < 30. w ! i) - N / Dx * (\<Sum>i < 30. x ! i)) / 30, r)"
    using linearRegression_nth [of x w]
    by (simp add: lw lx Let_def N_def Dx_def Dy_def r_def)
  have ts: "calculateTrendStrength prices = N / Dx * r * r * (30 / Mean w) * 100000"
    using len lr
    by (simp add: calculateTrendStrength_def Let_def w_def [symmetric] lw x_def [symmetric])
  have "{..<30::nat} \<noteq> {}"
    by (simp add: lessThan_empty_iff)
  then have "0 < (\<Sum>i < 30. w ! i)"
    by (intro sum_pos) (use wpos in simp_all)
  then have mean: "0 < Mean w"
    by (simp add: Mean_def lw sum_list_sum_nth atLeast0LessThan)
  have Dx: "0 < Dx"
    unfolding Dx_def
    using covariance_positive [of 30 "\<lambda>i. x ! i" "\<lambda>i. x ! i" 0 1] by (simp add: xn)
  have Dy: "0 < Dy" if "w ! 0 \<noteq> w ! 1"
  proof -
    have "w ! 0 - w ! 1 \<noteq> 0"
      using that by simp
    then have "0 < (w ! 0 - w ! 1) * (w ! 0 - w ! 1)"
      by (metis not_real_square_gt_zero)
    then show ?thesis
      unfolding Dy_def
      using covariance_positive [of 30 "\<lambda>i. w ! i" "\<lambda>i. w ! i" 0 1] by simp
  qed
  show "0 < calculateTrendStrength prices" if inc: "sorted_wrt (<) prices"
  proof -
    have mono: "w ! i < w ! j" if "i < j" "j < 30" for i j
      using sorted_wrt_nth_less [OF inc, of "length prices - 30 + i" "length prices - 30 + j"]
        that len by (simp add: wn)
    have nonneg: "0 \<le> (x ! i - x ! j) * (w ! i - w ! j)" if "i < 30" "j < 30" for i j
    proof (cases i j rule: linorder_cases)
      case less
      then show ?thesis
        using mono [of i j] that by (simp add: xn mult_nonpos_nonpos)
    next
      case equal
      then show ?thesis by simp
    next
      case greater
      then show ?thesis
        using mono [of j i] that by (simp add: xn)
    qed
    have "0 < (x ! 0 - x ! 1) * (w ! 0 - w ! 1)"
      using mono [of 0 1] by (simp add: xn mult_neg_neg)
    then have N: "0 < N"
      unfolding N_def
      using covariance_positive [of 30 "\<lambda>i. x ! i" "\<lambda>i. w ! i" 0 1] nonneg by simp
    have "w ! 0 \<noteq> w ! 1"
      using mono [of 0 1] by simp
    then have DD: "0 < Dx * Dy"
      using Dx Dy by simp
    then have sq: "0 < sqrt (Dx * Dy)"
      by simp
    have req: "r = N / sqrt (Dx * Dy)"
      using DD by (simp add: r_def)
    have "0 < r"
      unfolding req using N sq by (rule divide_pos_pos)
    then show ?thesis
      using N Dx mean by (simp add: ts)
  qed
  show "calculateTrendStrength prices < 0" if dec: "sorted_wrt (>) prices"
  proof -
    have mono: "w ! j < w ! i" if "i < j" "j < 30" for i j
      using sorted_wrt_nth_less [OF dec, of "length prices - 30 + i" "length prices - 30 + j"]
        that len by (simp add: wn)
    have nonneg: "0 \<le> (x ! i - x ! j) * (- w ! i - - w ! j)" if "i < 30" "j < 30" for i j
    proof (cases i j rule: linorder_cases)
      case less
      then show ?thesis
        using mono [of i j] that by (simp add: xn mult_nonpos_nonpos)
    next
      case equal
      then show ?thesis by simp
    next
      case greater
      then show ?thesis
        using mono [of j i] that by (simp add: xn)
    qed
    have "0 < (x ! 0 - x ! 1) * (- w ! 0 - - w ! 1)"
      using mono [of 0 1] by (simp add: xn mult_neg_neg)
    then have "0 < 30 * (\<Sum>i < 30. x ! i * - w ! i) - (\<Sum>i < 30. x ! i) * (\<Sum>i < 30. - w ! i)"
      using covariance_positive [of 30 "\<lambda>i. x ! i" "\<lambda>i. - w ! i" 0 1] nonneg by simp
    then have N: "N < 0"
      unfolding N_def by (simp add: sum_negf)
    have "w ! 0 \<noteq> w ! 1"
      using mono [of 0 1] by simp
    then have DD: "0 < Dx * Dy"
      using Dx Dy by simp
    then have sq: "0 < sqrt (Dx * Dy)"
      by simp
    have req: "r = N / sqrt (Dx * Dy)"
      using DD by (simp add: r_def)
    have "r < 0"
      unfolding req using N sq by (rule divide_neg_pos)
    then have "0 < r * r"
      by (simp add: mult_neg_neg)
    moreover have "N / Dx < 0"
      using N Dx by (simp add: divide_neg_pos)
    ultimately have "N / Dx * (r * r) < 0"
      by (rule mult_neg_pos [rotated])
    moreover have "0 < 30 / Mean w * 100000"
      using mean by simp
    ultimately have "N / Dx * (r * r) * (30 / Mean w * 100000) < 0"
      by (rule mult_neg_pos)
    then show ?thesis
      by (simp only: ts mult.assoc)
  qed
qed

section \<open>The snapshots of a tick sequence\<close>

lemma length_fifo_insert_eq:
  "0 < capacity \<Longrightarrow>
   length (fifo_insert capacity s v) =
     (if int (length s) \<ge> capacity then length s else Suc (length s))"
  by (cases s) (auto simp add: fifo_insert_def)

lemma AddTick_aligned:
  assumes "0 < maxSize md" and "history_aligned md"
  shows "\<exists>md'. AddTick tick md = Inr md' \<and> maxSize md' = maxSize md \<and> history_aligned md'"
proof -
  obtain md' where md': "AddTick tick md = Inr md'" "maxSize md' = maxSize md"
    "priceHistory md' =
       fifo_insert (maxSize md) (priceHistory md) (round_md md' (Price tick))"
    "highPrices md' =
       fifo_insert (maxSize md) (highPrices md)
         (if highPrices md = [] \<or> round_md md' (Price tick) > last (highPrices md)
          then round_md md' (Price tick) else last (highPrices md))"
    "lowPrices md' =
       fifo_insert (maxSize md) (lowPrices md)
         (if lowPrices md = [] \<or> round_md md' (Price tick) < last (lowPrices md)
          then round_md md' (Price tick) else last (lowPrices md))"
    using AddTick_effect [OF assms(1), of tick] by blast
  have "history_aligned md'"
    using assms unfolding history_aligned_def md'(3-5)
    by (simp add: length_fifo_insert_eq)
  with md'(1,2) show ?thesis
    by blast
qed

lemma ProcessTick_snapshot:
  assumes "20 \<le> length (priceHistory md)"
    and "calculateATR md a (priceHistory md) = Inr atr"
  shows "\<exists>a'. ProcessTick tick md a =
       Inr (Some \<lparr>RealizedVolatility =
                    StandardDeviation (returnsOf (priceHistory md)) * sqrt (252 * 1440) * 100,
                  ATR = atr,
                  RelativeStrength = calculateRelativeStrength (returnsOf (priceHistory md)),
                  OrderImbalance = calculateOrderImbalance md,
                  TrendStrength = calculateTrendStrength (priceHistory md),
                  AvgTrendStrength =
                    (if 7 \<le> length (trendStrengthWindow a')
                     then sum_list (trendStrengthWindow a')
                            / real (length (trendStrengthWindow a'))
                     else 0),
                  MarketEfficiencyRatio = calculateMarketEfficiencyRatio (priceHistory md)\<rparr>,
            a') \<and>
     trendStrengthWindow a' =
       (if 20 \<le> length (trendStrengthWindow a) then tl (trendStrengthWindow a)
        else trendStrengthWindow a) @ [calculateTrendStrength (priceHistory md)]"
proof -
  have m: "HasMinimumData md 20"
    using assms(1) by (simp add: HasMinimumData_def)
  have l: "\<not> length (priceHistory md) < 2"
    using assms(1) by simp
  define w' where "w' =
       (if 20 \<le> length (trendStrengthWindow a) then tl (trendStrengthWindow a)
        else trendStrengthWindow a) @ [calculateTrendStrength (priceHistory md)]"
  define snapshot where "snapshot =
     \<lparr>RealizedVolatility =
        StandardDeviation (returnsOf (priceHistory md)) * sqrt (252 * 1440) * 100,
      ATR = atr,
      RelativeStrength = calculateRelativeStrength (returnsOf (priceHistory md)),
      OrderImbalance = calculateOrderImbalance md,
      TrendStrength = calculateTrendStrength (priceHistory md),
      AvgTrendStrength = (if 7 \<le> length w' then sum_list w' / real (length w') else 0),
      MarketEfficiencyRatio = calculateMarketEfficiencyRatio (priceHistory md)\<rparr>"
  define a1 where "a1 = a\<lparr>trendStrengthWindow := w', metrics := snapshot\<rparr>"
  have cm: "calculateMetrics md a = Inr a1"
    unfolding calculateMetrics_def GetPriceArray_def Let_def
    by (simp add: l assms(2) andThen_def a1_def snapshot_def w'_def)
  define a' where "a' =
     (if \<not> warmupComplete a1 \<and> HasMinimumData md (warmupTicks a1)
      then a1\<lparr>warmupComplete := True\<rparr> else a1)"
  have pt: "ProcessTick tick md a = Inr (Some (GetMetrics a'), a')"
    by (simp add: ProcessTick_def m cm andThen_def a'_def Let_def)
  have w: "trendStrengthWindow a' = w'"
    by (simp add: a'_def a1_def)
  have gm: "GetMetrics a' = snapshot"
    by (simp add: GetMetrics_def a'_def a1_def snapshot_def)
  show ?thesis
    unfolding pt gm by (rule exI [of _ a']) (simp add: w snapshot_def w'_def)
qed

lemma ProcessTick_ready:
  assumes "20 \<le> length (priceHistory md)"
  shows "\<exists>m a'. ProcessTick tick md a = Inr (Some m, a') \<and>
     trendStrengthWindow a' =
       (if 20 \<le> length (trendStrengthWindow a) then tl (trendStrengthWindow a)
        else trendStrengthWindow a) @ [calculateTrendStrength (priceHistory md)] \<and>
     AvgTrendStrength m =
       (if 7 \<le> length (trendStrengthWindow a')
        then sum_list (trendStrengthWindow a') / real (length (trendStrengthWindow a'))
        else 0)"
proof -
  have "length (priceHistory md) \<noteq> 14"
    using assms by simp
  then obtain atr where "calculateATR md a (priceHistory md) = Inr atr"
    using calculateATR_Inr by blast
  from ProcessTick_snapshot [OF assms this, of tick] show ?thesis
    by force
qed

lemma ProcessTick_core:
  assumes "history_aligned md"
    and "ProcessTick tick md a = Inr (ma, a')" and "ProcessTick tick md b = Inr (mb, b')"
  shows "map_option withoutAvgTrend ma = map_option withoutAvgTrend mb"
proof (cases "HasMinimumData md 20")
  case False
  then show ?thesis
    using assms(2,3) by (simp add: ProcessTick_def)
next
  case True
  then have l: "20 \<le> length (priceHistory md)"
    by (simp add: HasMinimumData_def)
  then have "length (priceHistory md) \<noteq> 14"
    by simp
  then obtain atr where atr: "calculateATR md a (priceHistory md) = Inr atr"
    using calculateATR_Inr by blast
  have "calculateATR md b (priceHistory md) = calculateATR md a (priceHistory md)"
    using assms(1) l by (intro calculateATR_same) (simp_all add: history_aligned_def)
  then have atr': "calculateATR md b (priceHistory md) = Inr atr"
    using atr by simp
  show ?thesis
    using ProcessTick_snapshot [OF l atr, of tick] ProcessTick_snapshot [OF l atr', of tick]
    unfolding assms(2,3) by (auto simp add: withoutAvgTrend_def)
qed

lemma AddTicks_append:
  "AddTicks (xs @ ys) md = andThen (AddTicks xs md) (AddTicks ys)"
  by (induction xs arbitrary: md) (simp_all add: andThen_def split: sum.splits)

lemma processTicks_append:
  "processTicks (xs @ ys) md a =
     andThen (processTicks xs md a) (\<lambda>(s1, md1, a1).
     andThen (processTicks ys md1 a1) (\<lambda>(s2, md2, a2). Inr (s1 @ s2, md2, a2)))"
  by (induction xs arbitrary: md a) (simp_all add: andThen_def split: sum.splits prod.splits)

lemma processTicks_short:
  "int (length (priceHistory md) + length ticks) \<le> maxSize md \<Longrightarrow>
   length (priceHistory md) + length ticks < 20 \<Longrightarrow>
   \<exists>md'. processTicks ticks md a = Inr (replicate (length ticks) None, md', a) \<and>
     AddTicks ticks md = Inr md' \<and> maxSize md' = maxSize md \<and>
     length (priceHistory md') = length (priceHistory md) + length ticks"
proof (induction ticks arbitrary: md)
  case Nil
  then show ?case by simp
next
  case (Cons tick ticks)
  have "int (length (priceHistory md)) < maxSize md"
    using Cons.prems(1) by simp
  then obtain md1 where md1: "AddTick tick md = Inr md1" "maxSize md1 = maxSize md"
    "length (priceHistory md1) = Suc (length (priceHistory md))"
    using AddTick_length by blast
  have "\<not> HasMinimumData md1 20"
    using md1(3) Cons.prems(2) by (simp add: HasMinimumData_def)
  then have p: "ProcessTick tick md1 a = Inr (None, a)"
    by (simp add: ProcessTick_def)
  obtain md' where md': "processTicks ticks md1 a = Inr (replicate (length ticks) None, md', a)"
    "AddTicks ticks md1 = Inr md'" "maxSize md' = maxSize md1"
    "length (priceHistory md') = length (priceHistory md1) + length ticks"
    using Cons.IH [of md1] Cons.prems md1 by auto
  show ?case
    using md1 p md' by (simp add: andThen_def)
qed

lemma processTicks_total:
  "0 < maxSize md \<Longrightarrow> history_aligned md \<Longrightarrow>
   \<exists>s md' a'. processTicks ticks md a = Inr (s, md', a') \<and> length s = length ticks \<and>
     maxSize md' = maxSize md \<and> history_aligned md' \<and> AddTicks ticks md = Inr md'"
proof (induction ticks arbitrary: md a)
  case Nil
  then show ?case by simp
next
  case (Cons tick ticks)
  obtain md1 where md1: "AddTick tick md = Inr md1" "maxSize md1 = maxSize md"
    "history_aligned md1"
    using AddTick_aligned [OF Cons.prems] by blast
  obtain m a1 where a1: "ProcessTick tick md1 a = Inr (m, a1)"
    using ProcessTick_warmup [of tick md1 a] by blast
  obtain s md' a' where r: "processTicks ticks md1 a1 = Inr (s, md', a')"
    "length s = length ticks" "maxSize md' = maxSize md1" "history_aligned md'"
    "AddTicks ticks md1 = Inr md'"
    using Cons.IH [of md1 a1] md1 Cons.prems(1) by auto
  show ?case
    using md1 a1 r by (simp add: andThen_def)
qed

lemma processTicks_core:
  "0 < maxSize md \<Longrightarrow> history_aligned md \<Longrightarrow>
   processTicks ticks md a = Inr (sa, mda, a') \<Longrightarrow>
   processTicks ticks md b = Inr (sb, mdb, b') \<Longrightarrow>
   map (map_option withoutAvgTrend) sa = map (map_option withoutAvgTrend) sb \<and> mda = mdb"
proof (induction ticks arbitrary: md a b sa sb mda mdb a' b')
  case Nil
  then show ?case by simp
next
  case (Cons tick ticks)
  obtain md1 where md1: "AddTick tick md = Inr md1" "maxSize md1 = maxSize md"
    "history_aligned md1"
    using AddTick_aligned [OF Cons.prems(1,2)] by blast
  obtain ma a1 where a1: "ProcessTick tick md1 a = Inr (ma, a1)"
    using ProcessTick_warmup [of tick md1 a] by blast
  obtain mb b1 where b1: "ProcessTick tick md1 b = Inr (mb, b1)"
    using ProcessTick_warmup [of tick md1 b] by blast
  have pos: "0 < maxSize md1"
    using md1(2) Cons.prems(1) by simp
  obtain sa' mda' a2 where ra: "processTicks ticks md1 a1 = Inr (sa', mda', a2)"
    using processTicks_total [OF pos md1(3), of ticks a1] by blast
  obtain sb' mdb' b2 where rb: "processTicks ticks md1 b1 = Inr (sb', mdb', b2)"
    using processTicks_total [OF pos md1(3), of ticks b1] by blast
  have ea: "sa = ma # sa'" "mda = mda'"
    using Cons.prems(3) md1(1) a1 ra by (simp_all add: andThen_def)
  have eb: "sb = mb # sb'" "mdb = mdb'"
    using Cons.prems(4) md1(1) b1 rb by (simp_all add: andThen_def)
  have "map_option withoutAvgTrend ma = map_option withoutAvgTrend mb"
    by (rule ProcessTick_core [OF md1(3) a1 b1])
  moreover have "map (map_option withoutAvgTrend) sa' = map (map_option withoutAvgTrend) sb' \<and>
         mda' = mdb'"
    by (rule Cons.IH [OF pos md1(3) ra rb])
  ultimately show ?case
    by (simp add: ea eb)
qed

lemma Reset_new: "maxSize md = 1000 \<Longrightarrow> Reset md = NewMarketData"
  by (cases md) (simp add: Reset_def NewMarketData_def)

lemma NewMarketData_ready:
  "0 < maxSize NewMarketData" "history_aligned NewMarketData" "maxSize NewMarketData = 1000"
  "roundNum NewMarketData = 0" "priceHistory NewMarketData = []"
  by (simp_all add: NewMarketData_def history_aligned_def)

subsection \<open>Two analyzers on the same ticks\<close>

lemma windows_agree_start:
  "length wa \<le> 20 \<Longrightarrow> length wb \<le> 20 \<Longrightarrow> windows_agree 0 wa wb"
  by (simp add: windows_agree_def)

lemma windows_agree_full:
  assumes "windows_agree j wa wb" and "20 \<le> j"
  shows "wa = wb"
proof -
  have m: "min j 20 = 20"
    using assms(2) by simp
  have "length wa = 20" "length wb = 20"
    using assms(1) unfolding windows_agree_def m by linarith+
  moreover have "drop (length wa - 20) wa = drop (length wb - 20) wb"
    using assms(1) unfolding windows_agree_def m by blast
  ultimately show ?thesis
    by simp
qed

lemma drop_push:
  assumes "length w \<le> 20" and "m \<le> 20" and "m \<le> Suc (length w)" and "0 < m"
  shows "drop (length ((if 20 \<le> length w then tl w else w) @ [v]) - m)
           ((if 20 \<le> length w then tl w else w) @ [v]) =
         drop (length w - (m - 1)) w @ [v]"
proof (cases "20 \<le> length w")
  case True
  then have l: "length w = 20"
    using assms(1) by simp
  then have "w \<noteq> []"
    by auto
  have "drop (20 - m) (tl w) = drop (Suc (20 - m)) w"
    by (simp add: drop_Suc drop_tl)
  moreover have "Suc (20 - m) = 20 - (m - 1)"
    using assms(2,4) by simp
  ultimately show ?thesis
    using True l assms by simp
next
  case False
  then show ?thesis
    using assms by (simp add: Suc_diff_le)
qed

lemma windows_agree_push:
  assumes "windows_agree j wa wb"
  shows "windows_agree (Suc j)
           ((if 20 \<le> length wa then tl wa else wa) @ [v])
           ((if 20 \<le> length wb then tl wb else wb) @ [v])"
proof -
  let ?m = "min j 20" and ?m' = "min (Suc j) 20"
  have a: "length wa \<le> 20" "length wb \<le> 20" "?m \<le> length wa" "?m \<le> length wb"
    "drop (length wa - ?m) wa = drop (length wb - ?m) wb"
    using assms by (simp_all add: windows_agree_def)
  have m: "?m' \<le> 20" "0 < ?m'" "?m' - 1 \<le> ?m" "?m' \<le> Suc (length wa)" "?m' \<le> Suc (length wb)"
    using a(3,4) by auto
  have sub: "drop (length w - (?m' - 1)) w = drop (?m - (?m' - 1)) (drop (length w - ?m) w)"
    if "?m \<le> length w" for w :: "float64 list"
    using that m(3) by simp
  have e: "drop (length wa - (?m' - 1)) wa = drop (length wb - (?m' - 1)) wb"
    unfolding sub [OF a(3)] sub [OF a(4)] a(5) ..
  have la: "length ((if 20 \<le> length wa then tl wa else wa) @ [v]) \<le> 20"
    "?m' \<le> length ((if 20 \<le> length wa then tl wa else wa) @ [v])"
    using a(1,3) by auto
  have lb: "length ((if 20 \<le> length wb then tl wb else wb) @ [v]) \<le> 20"
    "?m' \<le> length ((if 20 \<le> length wb then tl wb else wb) @ [v])"
    using a(2,4) by auto
  show ?thesis
    unfolding windows_agree_def
    using la lb
    by (simp only: drop_push [OF a(1) m(1) m(4) m(2)] drop_push [OF a(2) m(1) m(5) m(2)] e
        simp_thms)
qed

lemma ProcessTick_idle:
  "length (priceHistory md) < 20 \<Longrightarrow> ProcessTick tick md a = Inr (None, a)"
  by (simp add: ProcessTick_def HasMinimumData_def)

lemma ProcessTick_agree:
  assumes "history_aligned md" and "20 \<le> length (priceHistory md)"
    and "ProcessTick tick md a = Inr (ma, a1)" and "ProcessTick tick md b = Inr (mb, b1)"
    and "windows_agree j (trendStrengthWindow a) (trendStrengthWindow b)"
  shows "windows_agree (Suc j) (trendStrengthWindow a1) (trendStrengthWindow b1)"
    and "19 \<le> j \<Longrightarrow> ma = mb"
proof -
  have "length (priceHistory md) \<noteq> 14"
    using assms(2) by simp
  then obtain atr where atr: "calculateATR md a (priceHistory md) = Inr atr"
    using calculateATR_Inr by blast
  have "calculateATR md b (priceHistory md) = calculateATR md a (priceHistory md)"
    using assms(1,2) by (intro calculateATR_same) (simp_all add: history_aligned_def)
  then have atr': "calculateATR md b (priceHistory md) = Inr atr"
    using atr by simp
  define v where "v = calculateTrendStrength (priceHistory md)"
  define wa where "wa = (if 20 \<le> length (trendStrengthWindow a) then tl (trendStrengthWindow a)
        else trendStrengthWindow a) @ [v]"
  define wb where "wb = (if 20 \<le> length (trendStrengthWindow b) then tl (trendStrengthWindow b)
        else trendStrengthWindow b) @ [v]"
  have ag: "windows_agree (Suc j) wa wb"
    unfolding wa_def wb_def by (rule windows_agree_push [OF assms(5)])
  have a: "trendStrengthWindow a1 = wa"
    "ma = Some \<lparr>RealizedVolatility =
                    StandardDeviation (returnsOf (priceHistory md)) * sqrt (252 * 1440) * 100,
                  ATR = atr,
                  RelativeStrength = calculateRelativeStrength (returnsOf (priceHistory md)),
                  OrderImbalance = calculateOrderImbalance md,
                  TrendStrength = calculateTrendStrength (priceHistory md),
                  AvgTrendStrength =
                    (if 7 \<le> length wa then sum_list wa / real (length wa) else 0),
                  MarketEfficiencyRatio = calculateMarketEfficiencyRatio (priceHistory md)\<rparr>"
    using ProcessTick_snapshot [OF assms(2) atr, of tick] unfolding assms(3) wa_def v_def
    by auto
  have b: "trendStrengthWindow b1 = wb"
    "mb = Some \<lparr>RealizedVolatility =
                    StandardDeviation (returnsOf (priceHistory md)) * sqrt (252 * 1440) * 100,
                  ATR = atr,
                  RelativeStrength = calculateRelativeStrength (returnsOf (priceHistory md)),
                  OrderImbalance = calculateOrderImbalance md,
                  TrendStrength = calculateTrendStrength (priceHistory md),
                  AvgTrendStrength =
                    (if 7 \<le> length wb then sum_list wb / real (length wb) else 0),
                  MarketEfficiencyRatio = calculateMarketEfficiencyRatio (priceHistory md)\<rparr>"
    using ProcessTick_snapshot [OF assms(2) atr', of tick] unfolding assms(4) wb_def v_def
    by auto
  show "windows_agree (Suc j) (trendStrengthWindow a1) (trendStrengthWindow b1)"
    unfolding a(1) b(1) by (rule ag)
  show "ma = mb" if "19 \<le> j"
  proof -
    have "wa = wb"
      using windows_agree_full [OF ag] that by simp
    then show ?thesis
      unfolding a(2) b(2) by simp
  qed
qed

lemma AddTick_price_length:
  assumes "0 < maxSize md"
  shows "\<exists>md'. AddTick tick md = Inr md' \<and>
     length (priceHistory md') =
       (if int (length (priceHistory md)) \<ge> maxSize md then length (priceHistory md)
        else Suc (length (priceHistory md)))"
proof -
  obtain md' where "AddTick tick md = Inr md'"
    "priceHistory md' =
       fifo_insert (maxSize md) (priceHistory md) (round_md md' (Price tick))"
    using AddTick_effect [OF assms, of tick] by blast
  then show ?thesis
    by (simp add: length_fifo_insert_eq [OF assms])
qed

lemma processTicks_agree:
  "maxSize md = 1000 \<Longrightarrow> history_aligned md \<Longrightarrow> length (priceHistory md) \<le> 1000 \<Longrightarrow>
   windows_agree j (trendStrengthWindow a) (trendStrengthWindow b) \<Longrightarrow>
   processTicks ticks md a = Inr (sa, mda, a') \<Longrightarrow>
   processTicks ticks md b = Inr (sb, mdb, b') \<Longrightarrow>
   length (trendStrengthWindow a') \<le> 20 \<and> length (trendStrengthWindow b') \<le> 20 \<and>
   (\<forall>k < length ticks.
      length (priceHistory md) + Suc k < 20 \<or>
      20 \<le> j + (Suc k - (19 - length (priceHistory md))) \<longrightarrow> sa ! k = sb ! k)"
proof (induction ticks arbitrary: md a b j sa sb mda mdb a' b')
  case Nil
  then show ?case
    by (simp add: windows_agree_def)
next
  case (Cons tick ticks)
  let ?n = "length (priceHistory md)"
  have pos0: "0 < maxSize md"
    using Cons.prems(1) by simp
  obtain md1 where md1: "AddTick tick md = Inr md1" "maxSize md1 = maxSize md"
    "history_aligned md1"
    using AddTick_aligned [OF pos0 Cons.prems(2)] by blast
  have n1: "length (priceHistory md1) = (if 1000 \<le> ?n then ?n else Suc ?n)"
    using AddTick_price_length [OF pos0, of tick] md1(1) Cons.prems(1) by auto
  have m1: "maxSize md1 = 1000" "length (priceHistory md1) \<le> 1000"
    using md1(2) Cons.prems(1,3) n1 by auto
  have pos: "0 < maxSize md1"
    using m1(1) by simp
  obtain ma a1 where a1: "ProcessTick tick md1 a = Inr (ma, a1)"
    using ProcessTick_warmup [of tick md1 a] by blast
  obtain mb b1 where b1: "ProcessTick tick md1 b = Inr (mb, b1)"
    using ProcessTick_warmup [of tick md1 b] by blast
  obtain sa' mda' a2 where ra: "processTicks ticks md1 a1 = Inr (sa', mda', a2)"
    using processTicks_total [OF pos md1(3), of ticks a1] by blast
  obtain sb' mdb' b2 where rb: "processTicks ticks md1 b1 = Inr (sb', mdb', b2)"
    using processTicks_total [OF pos md1(3), of ticks b1] by blast
  have ea: "sa = ma # sa'" "a' = a2"
    using Cons.prems(5) md1(1) a1 ra by (simp_all add: andThen_def)
  have eb: "sb = mb # sb'" "b' = b2"
    using Cons.prems(6) md1(1) b1 rb by (simp_all add: andThen_def)
  show ?case
  proof (cases "length (priceHistory md1) < 20")
    case True
    then have n: "?n < 19" "length (priceHistory md1) = Suc ?n"
      using n1 by (auto split: if_splits)
    have idle: "ma = None" "a1 = a" "mb = None" "b1 = b"
      using a1 b1 ProcessTick_idle [OF True] by simp_all
    have ih: "length (trendStrengthWindow a2) \<le> 20 \<and> length (trendStrengthWindow b2) \<le> 20 \<and>
       (\<forall>k < length ticks.
          length (priceHistory md1) + Suc k < 20 \<or>
          20 \<le> j + (Suc k - (19 - length (priceHistory md1))) \<longrightarrow> sa' ! k = sb' ! k)"
      using Cons.IH [OF m1(1) md1(3) m1(2) _ ra rb, of j] Cons.prems(4) idle by simp
    have "sa ! k = sb ! k"
      if "k < length (tick # ticks)"
        and "?n + Suc k < 20 \<or> 20 \<le> j + (Suc k - (19 - ?n))" for k
    proof (cases k)
      case 0
      then show ?thesis
        by (simp add: ea eb idle)
    next
      case (Suc k')
      have "k' < length ticks"
        using that(1) Suc by simp
      moreover have "length (priceHistory md1) + Suc k' < 20 \<or>
          20 \<le> j + (Suc k' - (19 - length (priceHistory md1)))"
        using that(2) n Suc by auto
      ultimately have "sa' ! k' = sb' ! k'"
        using ih by blast
      then show ?thesis
        by (simp add: ea eb Suc)
    qed
    then show ?thesis
      using ih ea(2) eb(2) by blast
  next
    case False
    then have ready: "20 \<le> length (priceHistory md1)"
      by simp
    then have n: "19 \<le> ?n"
      using n1 by (auto split: if_splits)
    have ag: "windows_agree (Suc j) (trendStrengthWindow a1) (trendStrengthWindow b1)"
      and same: "19 \<le> j \<Longrightarrow> ma = mb"
      using ProcessTick_agree [OF md1(3) ready a1 b1 Cons.prems(4)] by blast+
    have ih: "length (trendStrengthWindow a2) \<le> 20 \<and> length (trendStrengthWindow b2) \<le> 20 \<and>
       (\<forall>k < length ticks.
          length (priceHistory md1) + Suc k < 20 \<or>
          20 \<le> Suc j + (Suc k - (19 - length (priceHistory md1))) \<longrightarrow> sa' ! k = sb' ! k)"
      by (rule Cons.IH [OF m1(1) md1(3) m1(2) ag ra rb])
    have "sa ! k = sb ! k"
      if "k < length (tick # ticks)"
        and "?n + Suc k < 20 \<or> 20 \<le> j + (Suc k - (19 - ?n))" for k
    proof (cases k)
      case 0
      then have "19 \<le> j"
        using that(2) n by auto
      then show ?thesis
        using same 0 by (simp add: ea eb)
    next
      case (Suc k')
      have "k' < length ticks"
        using that(1) Suc by simp
      moreover have "20 \<le> Suc j + (Suc k' - (19 - length (priceHistory md1)))"
        using that(2) n ready Suc by auto
      ultimately have "sa' ! k' = sb' ! k'"
        using ih by blast
      then show ?thesis
        by (simp add: ea eb Suc)
    qed
    then show ?thesis
      using ih ea(2) eb(2) by blast
  qed
qed

subsection \<open>C6: replaying a tick sequence after Reset\<close>

lemma foldl_fifo_insert:
  "int (length h + length ts) \<le> capacity \<Longrightarrow>
   foldl (\<lambda>h t. fifo_insert capacity h (g t)) h ts = h @ map g ts"
  by (induction ts arbitrary: h) (simp_all add: fifo_insert_def)

lemma math_Round_of_nat: "math_Round (real k) = real k"
proof -
  have "\<lfloor>real k + 1 / 2\<rfloor> = int k"
    by linarith
  then show ?thesis
    by (simp add: math_Round_def)
qed

lemma round_md_of_nat:
  assumes "0 \<le> roundNum md"
  shows "round_md md (real i) = real i"
proof -
  have p: "(10 :: real) powi roundNum md = real (10 ^ nat (roundNum md))"
    using assms by (simp add: power_int_def)
  have "math_Round (real i * real (10 ^ nat (roundNum md))) = real i * real (10 ^ nat (roundNum md))"
    using math_Round_of_nat [of "i * 10 ^ nat (roundNum md)"] by simp
  then show ?thesis
    unfolding round_md_roundNum p by simp
qed

lemma risingTicks_split:
  "risingTicks = risingTick 1 # map risingTick [2 ..< 31]"
  "risingTicks = map risingTick [1 ..< 20] @ [risingTick 20] @ map risingTick [21 ..< 31]"
  "map risingTick [21 ..< 31] = map risingTick [21 ..< 30] @ [risingTick 30]"
proof -
  have "[1 ..< 31] = 1 # [2 ..< 31]"
    by (simp add: upt_conv_Cons)
  then show "risingTicks = risingTick 1 # map risingTick [2 ..< 31]"
    by (simp add: risingTicks_def)
  have "[1 ..< 31] = [1 ..< 20] @ [20 ..< 31]"
    using upt_add_eq_append [of 1 20 11] by simp
  moreover have "[20 ..< 31] = 20 # [21 ..< 31]"
    by (simp add: upt_conv_Cons)
  ultimately show
    "risingTicks = map risingTick [1 ..< 20] @ [risingTick 20] @ map risingTick [21 ..< 31]"
    by (simp add: risingTicks_def)
  have "[21 ..< 31] = [21 ..< 30] @ [30]"
    using upt_Suc_append [of 21 30] by simp
  then show "map risingTick [21 ..< 31] = map risingTick [21 ..< 30] @ [risingTick 30]"
    by simp
qed

lemma rising_history:
  "\<exists>md. AddTicks risingTicks NewMarketData = Inr md \<and> priceHistory md = map real [1 ..< 31]"
proof -
  obtain md where md: "AddTicks (risingTick 1 # map risingTick [2 ..< 31]) NewMarketData = Inr md"
    "roundNum md = inferRoundNum (Price (risingTick 1))"
    "priceHistory md =
       foldl (\<lambda>h t. fifo_insert (maxSize NewMarketData) h (round_md md (Price t)))
         (priceHistory NewMarketData) (risingTick 1 # map risingTick [2 ..< 31])"
    using AddTicks_fresh [OF NewMarketData_ready(1,4)] by blast
  have "0 \<le> roundNum md"
    using inferRoundNum_range(1) [of "Price (risingTick 1)"] md(2) by simp
  then have r: "round_md md (Price (risingTick i)) = real i" for i
    by (simp add: risingTick_def round_md_of_nat)
  have "priceHistory md = map (\<lambda>t. round_md md (Price t)) risingTicks"
    unfolding md(3) risingTicks_split(1) [symmetric] NewMarketData_ready(3,5)
    by (subst foldl_fifo_insert) (simp_all add: risingTicks_def)
  also have "\<dots> = map real [1 ..< 31]"
    by (simp add: risingTicks_def r)
  finally show ?thesis
    using md(1) by (simp add: risingTicks_split(1))
qed

lemma processTicks_step:
  assumes "history_aligned md" and "int (length (priceHistory md)) < maxSize md"
    and "19 \<le> length (priceHistory md)"
  shows "\<exists>m md' a'. processTicks [tick] md a = Inr ([Some m], md', a') \<and>
     AddTick tick md = Inr md' \<and> maxSize md' = maxSize md \<and> history_aligned md' \<and>
     length (priceHistory md') = Suc (length (priceHistory md)) \<and>
     trendStrengthWindow a' =
       (if 20 \<le> length (trendStrengthWindow a) then tl (trendStrengthWindow a)
        else trendStrengthWindow a) @ [calculateTrendStrength (priceHistory md')] \<and>
     AvgTrendStrength m =
       (if 7 \<le> length (trendStrengthWindow a')
        then sum_list (trendStrengthWindow a') / real (length (trendStrengthWindow a'))
        else 0)"
proof -
  have pos: "0 < maxSize md"
    using assms(2) by linarith
  obtain md' where md': "AddTick tick md = Inr md'" "maxSize md' = maxSize md"
    "history_aligned md'"
    using AddTick_aligned [OF pos assms(1)] by blast
  have len: "length (priceHistory md') = Suc (length (priceHistory md))"
    using AddTick_length [OF assms(2), of tick] md'(1) by simp
  then have "20 \<le> length (priceHistory md')"
    using assms(3) by simp
  from ProcessTick_ready [OF this, of tick a] obtain m a' where
    "ProcessTick tick md' a = Inr (Some m, a')"
    "trendStrengthWindow a' =
       (if 20 \<le> length (trendStrengthWindow a) then tl (trendStrengthWindow a)
        else trendStrengthWindow a) @ [calculateTrendStrength (priceHistory md')]"
    "AvgTrendStrength m =
       (if 7 \<le> length (trendStrengthWindow a')
        then sum_list (trendStrengthWindow a') / real (length (trendStrengthWindow a'))
        else 0)"
    by blast
  then show ?thesis
    using md' len by (simp add: andThen_def)
qed

lemma processTicks_quiet:
  "history_aligned md \<Longrightarrow> int (length (priceHistory md) + length ticks) \<le> maxSize md \<Longrightarrow>
   19 \<le> length (priceHistory md) \<Longrightarrow> length (priceHistory md) + length ticks < 30 \<Longrightarrow>
   length (trendStrengthWindow a) + length ticks \<le> 20 \<Longrightarrow>
   \<exists>s md' a'. processTicks ticks md a = Inr (s, md', a') \<and> AddTicks ticks md = Inr md' \<and>
     maxSize md' = maxSize md \<and> history_aligned md' \<and>
     length (priceHistory md') = length (priceHistory md) + length ticks \<and>
     trendStrengthWindow a' = trendStrengthWindow a @ replicate (length ticks) 0"
proof (induction ticks arbitrary: md a)
  case Nil
  then show ?case by simp
next
  case (Cons tick ticks)
  have "int (length (priceHistory md)) < maxSize md"
    using Cons.prems(2) by simp
  from processTicks_step [OF Cons.prems(1) this Cons.prems(3), of tick a]
  obtain m md1 a1 where s: "processTicks [tick] md a = Inr ([Some m], md1, a1)"
    "AddTick tick md = Inr md1" "maxSize md1 = maxSize md" "history_aligned md1"
    "length (priceHistory md1) = Suc (length (priceHistory md))"
    "trendStrengthWindow a1 =
       (if 20 \<le> length (trendStrengthWindow a) then tl (trendStrengthWindow a)
        else trendStrengthWindow a) @ [calculateTrendStrength (priceHistory md1)]"
    by blast
  have "calculateTrendStrength (priceHistory md1) = 0"
    using s(5) Cons.prems(4) by (simp add: calculateTrendStrength_def)
  then have w: "trendStrengthWindow a1 = trendStrengthWindow a @ [0]"
    using s(6) Cons.prems(5) by simp
  obtain s' md' a' where r: "processTicks ticks md1 a1 = Inr (s', md', a')"
    "AddTicks ticks md1 = Inr md'" "maxSize md' = maxSize md1" "history_aligned md'"
    "length (priceHistory md') = length (priceHistory md1) + length ticks"
    "trendStrengthWindow a' = trendStrengthWindow a1 @ replicate (length ticks) 0"
    using Cons.IH [of md1 a1] s(3-5) w Cons.prems by auto
  have "processTicks (tick # ticks) md a = Inr (Some m # s', md', a')"
    using processTicks_append [of "[tick]" ticks md a] s(1) r(1) by (simp add: andThen_def)
  then show ?case
    using s r w by (simp add: andThen_def replicate_append_same)
qed

lemma rising_prefix:
  assumes "length (trendStrengthWindow a) < 20"
  shows "\<exists>m md20 a20.
     processTicks (map risingTick [1 ..< 20] @ [risingTick 20]) NewMarketData a =
       Inr (replicate 19 None @ [Some m], md20, a20) \<and>
     AddTicks (map risingTick [1 ..< 20] @ [risingTick 20]) NewMarketData = Inr md20 \<and>
     maxSize md20 = 1000 \<and> history_aligned md20 \<and> length (priceHistory md20) = 20 \<and>
     trendStrengthWindow a20 = trendStrengthWindow a @ [0] \<and>
     AvgTrendStrength m =
       (if 7 \<le> length (trendStrengthWindow a) + 1
        then sum_list (trendStrengthWindow a) / real (length (trendStrengthWindow a) + 1)
        else 0)"
proof -
  let ?A = "map risingTick [1 ..< 20]"
  have "int (length (priceHistory NewMarketData) + length ?A) \<le> maxSize NewMarketData"
    and "length (priceHistory NewMarketData) + length ?A < 20"
    by (simp_all add: NewMarketData_ready)
  from processTicks_short [OF this, of a] obtain md19 where
    md19: "processTicks ?A NewMarketData a = Inr (replicate 19 None, md19, a)"
      "AddTicks ?A NewMarketData = Inr md19" "maxSize md19 = 1000"
      "length (priceHistory md19) = 19"
    by (auto simp add: NewMarketData_ready)
  have al: "history_aligned md19"
    using processTicks_total [OF NewMarketData_ready(1,2), of ?A a] md19(1) by auto
  have "int (length (priceHistory md19)) < maxSize md19" "19 \<le> length (priceHistory md19)"
    using md19(3,4) by simp_all
  from processTicks_step [OF al this, of "risingTick 20" a] obtain m md20 a20 where
    s: "processTicks [risingTick 20] md19 a = Inr ([Some m], md20, a20)"
      "AddTick (risingTick 20) md19 = Inr md20" "maxSize md20 = maxSize md19"
      "history_aligned md20" "length (priceHistory md20) = Suc (length (priceHistory md19))"
      "trendStrengthWindow a20 =
         (if 20 \<le> length (trendStrengthWindow a) then tl (trendStrengthWindow a)
          else trendStrengthWindow a) @ [calculateTrendStrength (priceHistory md20)]"
      "AvgTrendStrength m =
         (if 7 \<le> length (trendStrengthWindow a20)
          then sum_list (trendStrengthWindow a20) / real (length (trendStrengthWindow a20))
          else 0)"
    by blast
  have "calculateTrendStrength (priceHistory md20) = 0"
    using s(5) md19(4) by (simp add: calculateTrendStrength_def)
  then have w: "trendStrengthWindow a20 = trendStrengthWindow a @ [0]"
    using s(6) assms by simp
  have "processTicks (?A @ [risingTick 20]) NewMarketData a =
          Inr (replicate 19 None @ [Some m], md20, a20)"
    unfolding processTicks_append md19(1) using s(1) by (simp add: andThen_def)
  moreover have "AddTicks (?A @ [risingTick 20]) NewMarketData = Inr md20"
    unfolding AddTicks_append md19(2) using s(2) by (simp add: andThen_def)
  moreover have "AvgTrendStrength m =
       (if 7 \<le> length (trendStrengthWindow a) + 1
        then sum_list (trendStrengthWindow a) / real (length (trendStrengthWindow a) + 1)
        else 0)"
    unfolding s(7) w by simp
  ultimately show ?thesis
    using s(3,4,5) md19(3,4) w by auto
qed

lemma sum_list_zeros: "sum_list (replicate n (0 :: real)) = 0"
  by (induction n) simp_all

lemma rising_first_run:
  "\<exists>snaps md a1 ts.
     processTicks risingTicks NewMarketData NewAnalyzer = Inr (snaps, md, a1) \<and>
     maxSize md = 1000 \<and> map_option AvgTrendStrength (snaps ! 19) = Some 0 \<and>
     trendStrengthWindow a1 = replicate 10 0 @ [ts] \<and> 0 < ts"
proof -
  define P where "P = map risingTick [1 ..< 20] @ [risingTick 20]"
  define B where "B = map risingTick [21 ..< 30]"
  have lB: "length B = 9"
    by (simp add: B_def)
  have "length (trendStrengthWindow NewAnalyzer) < 20"
    by (simp add: NewAnalyzer_def)
  from rising_prefix [OF this, folded P_def] obtain m md20 a20 where
    p: "processTicks P NewMarketData NewAnalyzer = Inr (replicate 19 None @ [Some m], md20, a20)"
      "AddTicks P NewMarketData = Inr md20" "maxSize md20 = 1000" "history_aligned md20"
      "length (priceHistory md20) = 20" "trendStrengthWindow a20 = [0]"
      "AvgTrendStrength m = 0"
    by (auto simp add: NewAnalyzer_def)
  have "int (length (priceHistory md20) + length B) \<le> maxSize md20"
    "19 \<le> length (priceHistory md20)" "length (priceHistory md20) + length B < 30"
    "length (trendStrengthWindow a20) + length B \<le> 20"
    using p(3,5,6) lB by simp_all
  from processTicks_quiet [OF p(4) this] obtain sB md29 a29 where
    q: "processTicks B md20 a20 = Inr (sB, md29, a29)" "AddTicks B md20 = Inr md29"
      "maxSize md29 = 1000" "history_aligned md29" "length (priceHistory md29) = 29"
      "trendStrengthWindow a29 = [0] @ replicate 9 0"
    using p(3,5,6) lB by auto
  have w29: "trendStrengthWindow a29 = replicate 10 0"
    unfolding q(6) by (simp add: numeral_eq_Suc)
  have "int (length (priceHistory md29)) < maxSize md29" "19 \<le> length (priceHistory md29)"
    using q(3,5) by simp_all
  from processTicks_step [OF q(4) this, of "risingTick 30" a29] obtain m30 md30 a30 where
    s: "processTicks [risingTick 30] md29 a29 = Inr ([Some m30], md30, a30)"
      "AddTick (risingTick 30) md29 = Inr md30" "maxSize md30 = 1000"
      "trendStrengthWindow a30 = replicate 10 0 @ [calculateTrendStrength (priceHistory md30)]"
    using q(3) w29 by auto
  have split: "risingTicks = P @ B @ [risingTick 30]"
    using risingTicks_split(2,3) by (simp add: P_def B_def)
  have "AddTicks risingTicks NewMarketData = Inr md30"
    by (simp add: split AddTicks_append p(2) q(2) s(2) andThen_def)
  then have h: "priceHistory md30 = map real [1 ..< 31]"
    using rising_history by auto
  have "0 < calculateTrendStrength (priceHistory md30)"
    unfolding h by (rule trend_strength_sign(1)) (auto simp add: sorted_wrt_map)
  moreover have tail: "processTicks (B @ [risingTick 30]) md20 a20 =
      Inr (sB @ [Some m30], md30, a30)"
    using processTicks_append [of B "[risingTick 30]" md20 a20]
    by (simp only: q(1) s(1) andThen_def sum.case prod.case)
  have "processTicks risingTicks NewMarketData NewAnalyzer =
      Inr ((replicate 19 None @ [Some m]) @ sB @ [Some m30], md30, a30)"
    using processTicks_append [of P "B @ [risingTick 30]" NewMarketData NewAnalyzer]
    by (simp only: split p(1) tail andThen_def sum.case prod.case)
  moreover have "((replicate 19 None @ [Some m]) @ sB @ [Some m30]) ! 19 = Some m"
    by (simp add: nth_append)
  ultimately show ?thesis
    using s(3,4) p(7) by auto
qed

lemma rising_second_run:
  assumes "trendStrengthWindow a = replicate 10 0 @ [ts]" and "0 < ts"
  shows "\<exists>snaps md a2 v.
     processTicks risingTicks NewMarketData a = Inr (snaps, md, a2) \<and>
     map_option AvgTrendStrength (snaps ! 19) = Some v \<and> 0 < v"
proof -
  define P where "P = map risingTick [1 ..< 20] @ [risingTick 20]"
  define R where "R = map risingTick [21 ..< 31]"
  have "length (trendStrengthWindow a) < 20"
    using assms(1) by simp
  from rising_prefix [OF this, folded P_def] obtain m md20 a20 where
    p: "processTicks P NewMarketData a = Inr (replicate 19 None @ [Some m], md20, a20)"
      "maxSize md20 = 1000" "history_aligned md20"
      "AvgTrendStrength m =
        (if 7 \<le> length (trendStrengthWindow a) + 1
         then sum_list (trendStrengthWindow a) / real (length (trendStrengthWindow a) + 1)
         else 0)"
    by blast
  have avg: "AvgTrendStrength m = ts / 12"
    unfolding p(4) assms(1) by (simp add: sum_list_zeros)
  have "0 < maxSize md20"
    using p(2) by simp
  from processTicks_total [OF this p(3), of R a20] obtain sR md30 a30 where
    r: "processTicks R md20 a20 = Inr (sR, md30, a30)"
    by blast
  have split: "risingTicks = P @ R"
    using risingTicks_split(2) by (simp add: P_def R_def)
  have "processTicks risingTicks NewMarketData a =
      Inr ((replicate 19 None @ [Some m]) @ sR, md30, a30)"
    using processTicks_append [of P R NewMarketData a]
    by (simp only: split p(1) r andThen_def sum.case prod.case)
  moreover have "((replicate 19 None @ [Some m]) @ sR) ! 19 = Some m"
    by (simp add: nth_append)
  ultimately show ?thesis
    using avg assms(2) by auto
qed

text \<open>
  C6, as stated, fails, for the ticks fed by \<open>processTicks\<close>. \<^verbatim>\<open>Reset\<close> clears
  the store and leaves the analyzer with its window of trend strengths. On the thirty
  ticks with the prices 1 to 30, the twentieth snapshot of the first run has the
  average trend strength 0 (one value in the window); the first run ends with eleven
  values in the window, the last of them positive, so the twentieth snapshot of the
  replay averages twelve values and is positive.
\<close>

theorem C6_replay_differs_counterexample:
  "\<exists>snaps1 md1 a1 snaps2 md2 a2.
     processTicks risingTicks NewMarketData NewAnalyzer = Inr (snaps1, md1, a1) \<and>
     processTicks risingTicks (Reset md1) a1 = Inr (snaps2, md2, a2) \<and>
     map_option AvgTrendStrength (snaps1 ! 19) = Some 0 \<and>
     (\<exists>v. map_option AvgTrendStrength (snaps2 ! 19) = Some v \<and> 0 < v) \<and>
     snaps2 \<noteq> snaps1"
proof -
  obtain snaps1 md1 a1 ts where
    one: "processTicks risingTicks NewMarketData NewAnalyzer = Inr (snaps1, md1, a1)"
      "maxSize md1 = 1000" "map_option AvgTrendStrength (snaps1 ! 19) = Some 0"
      "trendStrengthWindow a1 = replicate 10 0 @ [ts]" "0 < ts"
    using rising_first_run by blast
  obtain snaps2 md2 a2 v where
    two: "processTicks risingTicks NewMarketData a1 = Inr (snaps2, md2, a2)"
      "map_option AvgTrendStrength (snaps2 ! 19) = Some v" "0 < v"
    using rising_second_run [OF one(4,5)] by blast
  have "snaps2 \<noteq> snaps1"
    using one(3) two(2,3) by auto
  then show ?thesis
    using one(1,3) two Reset_new [OF one(2)] by auto
qed

text \<open>
  C6, amended: for every tick sequence and every analyzer with at most 20 trend
  strengths in its window (a new one has none), feeding the sequence to a new store
  by \<open>processTicks\<close>, calling \<^verbatim>\<open>Reset\<close> and feeding the same sequence again with
  the same analyzer returns both times, leaves the same store, and yields, tick for
  tick, snapshots that agree with those of the first run in every metric but the
  average trend strength; the snapshots of the ticks 1 to 19 and of the ticks from
  39 on agree in the average trend strength too (they are equal). Of the wiring of
  the manager, on which no tick returns, nothing is said.
\<close>

theorem C6_replay_after_reset:
  assumes "length (trendStrengthWindow a) \<le> 20"
  shows "\<exists>snaps1 md1 a1 snaps2 md2 a2.
     processTicks ticks NewMarketData a = Inr (snaps1, md1, a1) \<and>
     processTicks ticks (Reset md1) a1 = Inr (snaps2, md2, a2) \<and>
     length snaps1 = length ticks \<and> length snaps2 = length ticks \<and> md2 = md1 \<and>
     map (map_option withoutAvgTrend) snaps2 = map (map_option withoutAvgTrend) snaps1 \<and>
     (\<forall>k < length ticks. k < 19 \<or> 38 \<le> k \<longrightarrow> snaps2 ! k = snaps1 ! k)"
proof -
  obtain snaps1 md1 a1 where
    one: "processTicks ticks NewMarketData a = Inr (snaps1, md1, a1)"
      "length snaps1 = length ticks" "maxSize md1 = maxSize NewMarketData"
    using processTicks_total [OF NewMarketData_ready(1,2), of ticks a] by blast
  have reset: "Reset md1 = NewMarketData"
    using one(3) by (simp add: Reset_new NewMarketData_ready)
  obtain snaps2 md2 a2 where
    two: "processTicks ticks NewMarketData a1 = Inr (snaps2, md2, a2)"
      "length snaps2 = length ticks"
    using processTicks_total [OF NewMarketData_ready(1,2), of ticks a1] by blast
  have new: "length (priceHistory NewMarketData) \<le> 1000"
    by (simp add: NewMarketData_ready)
  have "length (trendStrengthWindow a1) \<le> 20"
    using processTicks_agree [OF NewMarketData_ready(3,2) new
        windows_agree_start [OF assms assms] one(1) one(1)]
    by blast
  then have "windows_agree 0 (trendStrengthWindow a1) (trendStrengthWindow a)"
    using assms by (rule windows_agree_start)
  from processTicks_agree [OF NewMarketData_ready(3,2) new this two(1) one(1)]
  have "\<forall>k < length ticks.
      length (priceHistory NewMarketData) + Suc k < 20 \<or>
      20 \<le> 0 + (Suc k - (19 - length (priceHistory NewMarketData))) \<longrightarrow>
      snaps2 ! k = snaps1 ! k"
    by blast
  then have late: "\<forall>k < length ticks. k < 19 \<or> 38 \<le> k \<longrightarrow> snaps2 ! k = snaps1 ! k"
    by (auto simp add: NewMarketData_ready)
  have "map (map_option withoutAvgTrend) snaps2 = map (map_option withoutAvgTrend) snaps1 \<and>
     md2 = md1"
    by (rule processTicks_core [OF NewMarketData_ready(1,2) two(1) one(1)])
  then show ?thesis
    using one(1,2) two reset late by auto
qed

theorem C6_replay_after_reset_witness:
  "length (trendStrengthWindow NewAnalyzer) \<le> 20 \<and>
   length (map risingTick [1 ..< 41]) = 40 \<and>
   (\<exists>snaps1 md1 a1 snaps2 md2 a2.
     processTicks (map risingTick [1 ..< 41]) NewMarketData NewAnalyzer = Inr (snaps1, md1, a1) \<and>
     processTicks (map risingTick [1 ..< 41]) (Reset md1) a1 = Inr (snaps2, md2, a2) \<and>
     length snaps1 = 40 \<and> length snaps2 = 40 \<and> md2 = md1 \<and>
     snaps2 ! 0 = snaps1 ! 0 \<and> snaps2 ! 18 = snaps1 ! 18 \<and>
     snaps2 ! 38 = snaps1 ! 38 \<and> snaps2 ! 39 = snaps1 ! 39)"
proof -
  define T where "T = map risingTick [1 ..< 41]"
  have a: "length (trendStrengthWindow NewAnalyzer) \<le> 20"
    by (simp add: NewAnalyzer_def)
  have l: "length T = 40"
    by (simp add: T_def)
  from C6_replay_after_reset [OF a, of T] obtain snaps1 md1 a1 snaps2 md2 a2 where
    r: "processTicks T NewMarketData NewAnalyzer = Inr (snaps1, md1, a1)"
      "processTicks T (Reset md1) a1 = Inr (snaps2, md2, a2)"
      "length snaps1 = length T" "length snaps2 = length T" "md2 = md1"
      "\<forall>k < length T. k < 19 \<or> 38 \<le> k \<longrightarrow> snaps2 ! k = snaps1 ! k"
    by blast
  have "snaps2 ! 0 = snaps1 ! 0" "snaps2 ! 18 = snaps1 ! 18"
    "snaps2 ! 38 = snaps1 ! 38" "snaps2 ! 39 = snaps1 ! 39"
    using r(6) l by simp_all
  then show ?thesis
    using a l r(1-5) unfolding T_def [symmetric] by auto
qed

end
